theory Spec2Isabelle
  imports Main "HOL-Library.Word"
begin

section \<open>Python strings, bytes and the UTF-16 codecs\<close>

text \<open>
  A Python \<open>str\<close> is a sequence of code points; it may hold surrogate code points
  (\<open>_add_surrogate\<close> builds such strings on purpose). A \<open>bytes\<close> object is a
  sequence of 8-bit values. ASCII literals are written with \<open>ascii\<close>.
\<close>

type_synonym byte = "8 word"
type_synonym pystr = "nat list"

definition ascii :: "string \<Rightarrow> pystr" where
  "ascii s = map of_char s"

definition is_str :: "pystr \<Rightarrow> bool" where
  "is_str s = list_all (\<lambda>c. c < 0x110000) s"

definition is_surrogate :: "nat \<Rightarrow> bool" where
  "is_surrogate u = (0xD800 \<le> u \<and> u \<le> 0xDFFF)"

definition is_scalar_str :: "pystr \<Rightarrow> bool" where
  "is_scalar_str s = list_all (\<lambda>c. c < 0x110000 \<and> \<not> is_surrogate c) s"

datatype error =
    UnicodeEncodeError | UnicodeDecodeError | StructError
  | KeyError | TypeError | AttributeError | ValueError | IndexError

fun bind_res :: "error + 'a \<Rightarrow> ('a \<Rightarrow> error + 'b) \<Rightarrow> error + 'b" where
  "bind_res (Inl e) f = Inl e"
| "bind_res (Inr x) f = f x"

subsection \<open>Encoding\<close>

definition high_surrogate :: "nat \<Rightarrow> nat" where
  "high_surrogate c = 0xD800 + (c - 0x10000) div 0x400"

definition low_surrogate :: "nat \<Rightarrow> nat" where
  "low_surrogate c = 0xDC00 + (c - 0x10000) mod 0x400"

text \<open>One 16-bit unit as two bytes, little-endian when the flag is set.\<close>

definition unit_bytes :: "bool \<Rightarrow> nat \<Rightarrow> byte list" where
  "unit_bytes le u =
     (if le then [of_nat (u mod 256), of_nat (u div 256)]
      else [of_nat (u div 256), of_nat (u mod 256)])"

text \<open>
  \<open>x.encode(codec, errors)\<close> for one code point: a code point below \<open>0x10000\<close> is one
  unit, but a surrogate is refused unless \<open>errors = 'surrogatepass'\<close>; a code point from
  \<open>0x10000\<close> on is a surrogate pair.
\<close>

definition encode_char :: "bool \<Rightarrow> bool \<Rightarrow> nat \<Rightarrow> error + byte list" where
  "encode_char le surrogatepass c =
     (if c < 0x10000 then
        (if is_surrogate c \<and> \<not> surrogatepass then Inl UnicodeEncodeError
         else Inr (unit_bytes le c))
      else Inr (unit_bytes le (high_surrogate c) @ unit_bytes le (low_surrogate c)))"

fun encode_units :: "bool \<Rightarrow> bool \<Rightarrow> pystr \<Rightarrow> error + byte list" where
  "encode_units le sp [] = Inr []"
| "encode_units le sp (c # cs) =
     bind_res (encode_char le sp c) (\<lambda>b.
     bind_res (encode_units le sp cs) (\<lambda>bs. Inr (b @ bs)))"

text \<open>\<open>text.encode('utf-16-le')\<close>: strict, no byte order mark.\<close>

definition encode_utf_16_le :: "pystr \<Rightarrow> error + byte list" where
  "encode_utf_16_le s = encode_units True False s"

text \<open>
  \<open>text.encode('utf-16', errors)\<close>: the byte order mark U+FEFF in the host's byte
  order, then the units in that order.
\<close>

definition encode_utf_16 :: "bool \<Rightarrow> bool \<Rightarrow> pystr \<Rightarrow> error + byte list" where
  "encode_utf_16 host_le sp s =
     bind_res (encode_units host_le sp s) (\<lambda>bs. Inr (unit_bytes host_le 0xFEFF @ bs))"

subsection \<open>Decoding\<close>

fun bytes_to_units :: "bool \<Rightarrow> byte list \<Rightarrow> error + nat list" where
  "bytes_to_units le [] = Inr []"
| "bytes_to_units le [b] = Inl UnicodeDecodeError"
| "bytes_to_units le (b0 # b1 # bs) =
     bind_res (bytes_to_units le bs) (\<lambda>us.
       Inr ((if le then unat b0 + 256 * unat b1 else 256 * unat b0 + unat b1) # us))"

definition join_surrogates :: "nat \<Rightarrow> nat \<Rightarrow> nat" where
  "join_surrogates hi lo = 0x10000 + (hi - 0xD800) * 0x400 + (lo - 0xDC00)"

text \<open>
  The strict decoder: a unit outside the surrogate range is a code point; a high
  surrogate must be followed by a low one; anything else is an error.
\<close>

fun units_to_str :: "nat list \<Rightarrow> error + pystr" where
  "units_to_str [] = Inr []"
| "units_to_str [u] = (if is_surrogate u then Inl UnicodeDecodeError else Inr [u])"
| "units_to_str (u # v # us) =
     (if \<not> is_surrogate u then bind_res (units_to_str (v # us)) (\<lambda>s. Inr (u # s))
      else if u \<le> 0xDBFF \<and> 0xDC00 \<le> v \<and> v \<le> 0xDFFF
        then bind_res (units_to_str us) (\<lambda>s. Inr (join_surrogates u v # s))
      else Inl UnicodeDecodeError)"

text \<open>\<open>data.decode('utf-16-le')\<close>.\<close>

definition decode_utf_16_le :: "byte list \<Rightarrow> error + pystr" where
  "decode_utf_16_le bs = bind_res (bytes_to_units True bs) units_to_str"

text \<open>
  \<open>data.decode('utf-16')\<close>: a leading byte order mark selects the byte order and is
  dropped; without one the host's order is used.
\<close>

definition decode_utf_16 :: "bool \<Rightarrow> byte list \<Rightarrow> error + pystr" where
  "decode_utf_16 host_le bs =
     (if take 2 bs = [0xFF, 0xFE] then bind_res (bytes_to_units True (drop 2 bs)) units_to_str
      else if take 2 bs = [0xFE, 0xFF] then bind_res (bytes_to_units False (drop 2 bs)) units_to_str
      else bind_res (bytes_to_units host_le bs) units_to_str)"

subsection \<open>The module's surrogate helpers\<close>

text \<open>\<open>struct.unpack('<HH', data)\<close>: exactly four bytes, two little-endian 16-bit values.\<close>

fun unpack_HH :: "byte list \<Rightarrow> error + nat list" where
  "unpack_HH [a, b, c, d] = Inr [unat a + 256 * unat b, unat c + 256 * unat d]"
| "unpack_HH bs = Inl StructError"

fun add_surrogate :: "pystr \<Rightarrow> error + pystr" where
  "add_surrogate [] = Inr []"
| "add_surrogate (x # text) =
     bind_res
       (if 0x10000 \<le> x \<and> x \<le> 0x10FFFF
        then bind_res (encode_utf_16_le [x]) unpack_HH
        else Inr [x]) (\<lambda>piece.
     bind_res (add_surrogate text) (\<lambda>r. Inr (piece @ r)))"

definition del_surrogate :: "bool \<Rightarrow> pystr \<Rightarrow> error + pystr" where
  "del_surrogate host_le text =
     bind_res (encode_utf_16 host_le True text) (decode_utf_16 host_le)"


section \<open>Entities and the runtime\<close>

text \<open>
  The entity classes of \<open>tl.types\<close> that the module imports, each with its
  \<open>offset\<close> and \<open>length\<close> in UTF-16 code units and its own fields.
  \<open>MessageEntityOther\<close> stands for every entity class the module does not name.
\<close>

datatype MessageEntity =
    MessageEntityBold (offset: int) (length': int)
  | MessageEntityItalic (offset: int) (length': int)
  | MessageEntityCode (offset: int) (length': int)
  | MessageEntityPre (offset: int) (length': int) (language: pystr)
  | MessageEntityEmail (offset: int) (length': int)
  | MessageEntityUrl (offset: int) (length': int)
  | MessageEntityTextUrl (offset: int) (length': int) (url: pystr)
  | MessageEntityMentionName (offset: int) (length': int) (user_id: int)
  | MessageEntityUnderline (offset: int) (length': int)
  | MessageEntityStrike (offset: int) (length': int)
  | MessageEntityBlockquote (offset: int) (length': int)
  | MessageEntityCustomEmoji (offset: int) (length': int) (document_id: int)
  | MessageEntitySpoiler (offset: int) (length': int)
  | MessageEntityOther (offset: int) (length': int)

text \<open>
  What the module reads from outside its own text: the flag \<open>CUSTOM_EMOJIS\<close>
  (set to \<open>True\<close> in the module, "can be disabled externally"), the characters that the
  regular expression class \<open>\d\<close> accepts, the host's byte order (for the codec
  \<open>'utf-16'\<close>) and the built-in \<open>int(str)\<close>, which gives \<open>None\<close> where Python
  raises \<open>ValueError\<close>.
\<close>

record runtime =
  CUSTOM_EMOJIS :: bool
  unicode_decimal :: "nat \<Rightarrow> bool"
  host_little_endian :: bool
  int_of_str :: "pystr \<Rightarrow> int option"

section \<open>Python built-ins used by the unparser\<close>

text \<open>
  \<open>xs[a:b]\<close> with both bounds given: a negative bound counts from the end, then
  both are clamped to \<open>0..len(xs)\<close>; the slice is empty when the stop is not after
  the start.
\<close>

definition slice_bound :: "nat \<Rightarrow> int \<Rightarrow> nat" where
  "slice_bound n i =
     (if i < 0 then (if i + int n < 0 then 0 else nat (i + int n))
      else if int n \<le> i then n else nat i)"

definition py_slice :: "'a list \<Rightarrow> int \<Rightarrow> int \<Rightarrow> 'a list" where
  "py_slice xs a b =
     (let lo = slice_bound (length xs) a; hi = slice_bound (length xs) b
      in if lo < hi then take (hi - lo) (drop lo xs) else [])"

text \<open>\<open>str(n)\<close> for an integer: decimal digits, with a minus sign when negative.\<close>

function nat_str :: "nat \<Rightarrow> pystr" where
  "nat_str n = (if n < 10 then [48 + n] else nat_str (n div 10) @ [48 + n mod 10])"
  by pat_completeness auto
termination
  by (relation "measure id") auto

definition int_str :: "int \<Rightarrow> pystr" where
  "int_str i = (if i < 0 then 45 # nat_str (nat (- i)) else nat_str (nat i))"

text \<open>\<open>s.replace(old, new)\<close> for a one-character \<open>old\<close>.\<close>

definition replace_char :: "nat \<Rightarrow> pystr \<Rightarrow> pystr \<Rightarrow> pystr" where
  "replace_char old new s = concat (map (\<lambda>c. if c = old then new else [c]) s)"

text \<open>
  \<open>html.escape(s, quote=False)\<close> of the standard library: three replacements in
  this order, the ampersand first.
\<close>

definition escape :: "pystr \<Rightarrow> pystr" where
  "escape s =
     replace_char 62 (ascii ''&gt;'')
       (replace_char 60 (ascii ''&lt;'')
         (replace_char 38 (ascii ''&amp;'') s))"

text \<open>
  The test \<open>re.match(r"^<emoji document_id=\"?\d+?\"?>[^<]*?<\/emoji>$", text)\<close>,
  as a backtracking matcher, one function for each position of the pattern. The final
  \<open>$\<close> matches at the end of the text and before a line feed that ends it.
\<close>

fun match_body :: "pystr \<Rightarrow> bool" where
  "match_body [] = False"
| "match_body (c # r) =
     (c # r = ascii ''</emoji>'' \<or> c # r = ascii ''</emoji>'' @ [10]
      \<or> (c \<noteq> 60 \<and> match_body r))"

fun match_gt :: "pystr \<Rightarrow> bool" where
  "match_gt [] = False"
| "match_gt (c # r) = (c = 62 \<and> match_body r)"

fun match_close_quote :: "pystr \<Rightarrow> bool" where
  "match_close_quote [] = False"
| "match_close_quote (c # r) = ((c = 34 \<and> match_gt r) \<or> match_gt (c # r))"

fun match_digits :: "(nat \<Rightarrow> bool) \<Rightarrow> pystr \<Rightarrow> bool" where
  "match_digits dec [] = False"
| "match_digits dec (c # r) = (dec c \<and> (match_close_quote r \<or> match_digits dec r))"

fun match_open_quote :: "(nat \<Rightarrow> bool) \<Rightarrow> pystr \<Rightarrow> bool" where
  "match_open_quote dec [] = False"
| "match_open_quote dec (c # r) =
     ((c = 34 \<and> match_digits dec r) \<or> match_digits dec (c # r))"

definition match_emoji :: "runtime \<Rightarrow> pystr \<Rightarrow> bool" where
  "match_emoji rt text =
     (let p = ascii ''<emoji document_id=''
      in take (length p) text = p
         \<and> match_open_quote (unicode_decimal rt) (drop (length p) text))"


section \<open>The unparser\<close>

text \<open>
  \<open>TextDecoration\<close> is an abstract class: a renderer supplies the methods below
  (\<open>blockquote\<close> is reached through \<open>getattr\<close>). \<open>custom_emoji\<close> receives the
  entity's integer \<open>document_id\<close>.
\<close>

record decoration =
  link :: "pystr \<Rightarrow> pystr \<Rightarrow> pystr"
  bold :: "pystr \<Rightarrow> pystr"
  italic :: "pystr \<Rightarrow> pystr"
  spoiler :: "pystr \<Rightarrow> pystr"
  code :: "pystr \<Rightarrow> pystr"
  pre :: "pystr \<Rightarrow> pystr"
  pre_language :: "pystr \<Rightarrow> pystr \<Rightarrow> pystr"
  underline :: "pystr \<Rightarrow> pystr"
  strikethrough :: "pystr \<Rightarrow> pystr"
  quote :: "pystr \<Rightarrow> pystr"
  blockquote :: "pystr \<Rightarrow> pystr"
  custom_emoji :: "pystr \<Rightarrow> int \<Rightarrow> pystr"

text \<open>The table \<open>entity_map\<close> of \<open>apply_entity\<close>: entity class to method.\<close>

fun entity_map :: "MessageEntity \<Rightarrow> (decoration \<Rightarrow> pystr \<Rightarrow> pystr) option" where
  "entity_map (MessageEntityBold _ _) = Some bold"
| "entity_map (MessageEntityItalic _ _) = Some italic"
| "entity_map (MessageEntitySpoiler _ _) = Some spoiler"
| "entity_map (MessageEntityCode _ _) = Some code"
| "entity_map (MessageEntityUnderline _ _) = Some underline"
| "entity_map (MessageEntityStrike _ _) = Some strikethrough"
| "entity_map (MessageEntityBlockquote _ _) = Some blockquote"
| "entity_map _ = None"

definition apply_entity :: "runtime \<Rightarrow> decoration \<Rightarrow> MessageEntity \<Rightarrow> pystr \<Rightarrow> pystr" where
  "apply_entity rt self entity text =
     (case entity_map entity of
        Some method \<Rightarrow> if match_emoji rt text then text else method self text
      | None \<Rightarrow>
         (case entity of
            MessageEntityPre _ _ lang \<Rightarrow>
              if lang \<noteq> [] then pre_language self text lang else pre self text
          | MessageEntityMentionName _ _ uid \<Rightarrow>
              link self text (ascii ''tg://user?id='' @ int_str uid)
          | MessageEntityTextUrl _ _ u \<Rightarrow> link self text u
          | MessageEntityUrl _ _ \<Rightarrow> link self text text
          | MessageEntityEmail _ _ \<Rightarrow> link self text (ascii ''mailto:'' @ text)
          | MessageEntityCustomEmoji _ _ did \<Rightarrow>
              if CUSTOM_EMOJIS rt then custom_emoji self text did else quote self text
          | _ \<Rightarrow> quote self text))"

definition add_surrogates :: "pystr \<Rightarrow> error + byte list" where
  "add_surrogates text = encode_utf_16_le text"

definition remove_surrogates :: "byte list \<Rightarrow> error + pystr" where
  "remove_surrogates text = decode_utf_16_le text"

text \<open>
  \<open>_unparse_entities\<close> is a generator whose fragments the caller joins; the model
  returns the joined string, or the error of the first fragment that raises.
  \<open>unparse_entities\<close> is the function's prologue (\<open>offset\<close> and \<open>length\<close> may be
  \<open>None\<close>, and \<open>length or len(text)\<close> also replaces a length of 0);
  \<open>entities_loop\<close> is the \<open>for\<close> loop on the entities that remain, with the cursor
  \<open>pos\<close> (the source's variable \<open>offset\<close>) and the bound \<open>lim\<close> (its \<open>length\<close>),
  followed by the final fragment.
\<close>

function
  unparse_entities :: "runtime \<Rightarrow> decoration \<Rightarrow> byte list \<Rightarrow> MessageEntity list
      \<Rightarrow> int option \<Rightarrow> int option \<Rightarrow> error + pystr"
and
  entities_loop :: "runtime \<Rightarrow> decoration \<Rightarrow> byte list \<Rightarrow> MessageEntity list
      \<Rightarrow> int \<Rightarrow> int \<Rightarrow> error + pystr"
where
  "unparse_entities rt self text entities offs len =
     entities_loop rt self text entities
       (case offs of None \<Rightarrow> 0 | Some p \<Rightarrow> p)
       (case len of None \<Rightarrow> int (length text)
        | Some l \<Rightarrow> if l = 0 then int (length text) else l)"
| "entities_loop rt self text [] pos lim =
     (if pos < lim
      then bind_res (remove_surrogates (py_slice text pos lim)) (\<lambda>s. Inr (quote self s))
      else Inr [])"
| "entities_loop rt self text (entity # rest) pos lim =
     (if offset entity * 2 < pos then entities_loop rt self text rest pos lim
      else
        bind_res
          (if offset entity * 2 > pos
           then bind_res (remove_surrogates (py_slice text pos (offset entity * 2)))
                  (\<lambda>s. Inr (quote self s))
           else Inr []) (\<lambda>gap.
        let start = offset entity * 2;
            pos' = offset entity * 2 + length' entity * 2;
            sub_entities = filter (\<lambda>e. offset e * 2 < pos') rest
        in
        bind_res (unparse_entities rt self text sub_entities (Some start) (Some pos')) (\<lambda>inner.
        bind_res (entities_loop rt self text rest pos' lim) (\<lambda>more.
          Inr (gap @ apply_entity rt self entity inner @ more)))))"
  by pat_completeness auto
termination
  by (relation "measure (\<lambda>x. case x of
          Inl (rt, self, text, entities, offs, len) \<Rightarrow> 2 * length entities + 1
        | Inr (rt, self, text, entities, pos, lim) \<Rightarrow> 2 * length entities)")
     (auto simp: less_Suc_eq_le)

definition unparse' :: "runtime \<Rightarrow> decoration \<Rightarrow> pystr \<Rightarrow> MessageEntity list option
    \<Rightarrow> error + pystr" where
  "unparse' rt self text entities =
     bind_res (add_surrogates text) (\<lambda>data.
       unparse_entities rt self data
         (case entities of None \<Rightarrow> []
          | Some es \<Rightarrow> if es = [] then [] else sort_key offset es)
         None None)"

subsection \<open>The HTML renderer\<close>

definition html_decoration :: decoration where
  \<open>html_decoration = \<lparr>
     link = (\<lambda>value link. ascii ''<a href="'' @ link @ ascii ''">'' @ value @ ascii ''</a>''),
     bold = (\<lambda>value. ascii ''<b>'' @ value @ ascii ''</b>''),
     italic = (\<lambda>value. ascii ''<i>'' @ value @ ascii ''</i>''),
     spoiler = (\<lambda>value. ascii ''<tg-spoiler>'' @ value @ ascii ''</tg-spoiler>''),
     code = (\<lambda>value. ascii ''<code>'' @ value @ ascii ''</code>''),
     pre = (\<lambda>value. ascii ''<pre>'' @ value @ ascii ''</pre>''),
     pre_language = (\<lambda>value language.
       ascii ''<pre><code class="language-'' @ language @ ascii ''">'' @ value
         @ ascii ''</code></pre>''),
     underline = (\<lambda>value. ascii ''<u>'' @ value @ ascii ''</u>''),
     strikethrough = (\<lambda>value. ascii ''<s>'' @ value @ ascii ''</s>''),
     quote = escape,
     blockquote = (\<lambda>value. ascii ''<blockquote>'' @ value @ ascii ''</blockquote>''),
     custom_emoji = (\<lambda>value document_id.
       ascii ''<emoji document_id='' @ int_str document_id @ ascii ''>'' @ value
         @ ascii ''</emoji>'')
   \<rparr>\<close>

text \<open>The module's \<open>unparse = html_decoration.unparse\<close>.\<close>

definition unparse :: "runtime \<Rightarrow> pystr \<Rightarrow> MessageEntity list option \<Rightarrow> error + pystr" where
  "unparse rt text entities = unparse' rt html_decoration text entities"


section \<open>The parser\<close>

text \<open>
  The state of \<open>HTMLToTelegramParser\<close>: the text so far, the closed entities, the
  dictionary \<open>_building_entities\<close> from tag name to open entity, and the two deques
  \<open>_open_tags\<close> and \<open>_open_tags_meta\<close> with their left end first.
\<close>

record parser =
  text' :: pystr
  entities' :: "MessageEntity list"
  building_entities :: "pystr \<rightharpoonup> MessageEntity"
  open_tags :: "pystr list"
  open_tags_meta :: "pystr option list"

definition new_parser :: parser where
  "new_parser = \<lparr>text' = [], entities' = [], building_entities = Map.empty,
     open_tags = [], open_tags_meta = []\<rparr>"

text \<open>The assignments \<open>entity.length += n\<close> and \<open>pre.language = s\<close>.\<close>

fun add_length :: "int \<Rightarrow> MessageEntity \<Rightarrow> MessageEntity" where
  "add_length n (MessageEntityBold off len) = MessageEntityBold off (len + n)"
| "add_length n (MessageEntityItalic off len) = MessageEntityItalic off (len + n)"
| "add_length n (MessageEntityCode off len) = MessageEntityCode off (len + n)"
| "add_length n (MessageEntityPre off len lang) = MessageEntityPre off (len + n) lang"
| "add_length n (MessageEntityEmail off len) = MessageEntityEmail off (len + n)"
| "add_length n (MessageEntityUrl off len) = MessageEntityUrl off (len + n)"
| "add_length n (MessageEntityTextUrl off len u) = MessageEntityTextUrl off (len + n) u"
| "add_length n (MessageEntityMentionName off len uid) = MessageEntityMentionName off (len + n) uid"
| "add_length n (MessageEntityUnderline off len) = MessageEntityUnderline off (len + n)"
| "add_length n (MessageEntityStrike off len) = MessageEntityStrike off (len + n)"
| "add_length n (MessageEntityBlockquote off len) = MessageEntityBlockquote off (len + n)"
| "add_length n (MessageEntityCustomEmoji off len did) = MessageEntityCustomEmoji off (len + n) did"
| "add_length n (MessageEntitySpoiler off len) = MessageEntitySpoiler off (len + n)"
| "add_length n (MessageEntityOther off len) = MessageEntityOther off (len + n)"

fun set_language :: "pystr \<Rightarrow> MessageEntity \<Rightarrow> MessageEntity" where
  "set_language s (MessageEntityPre off len lang) = MessageEntityPre off len s"
| "set_language s e = e"

text \<open>
  The \<open>if\<close>/\<open>elif\<close> chain of \<open>handle_starttag\<close> ends in one of two ways: the
  early \<open>return\<close> of an anchor without \<open>href\<close>, or the fall through to the final
  \<open>if\<close> with the entity class chosen (if any) and its extra arguments already applied.
\<close>

datatype outcome =
    Return parser
  | Continue parser "(int \<Rightarrow> int \<Rightarrow> MessageEntity) option"

text \<open>
  \<open>attrs\<close> is \<open>dict(attrs)\<close>: a later duplicate of an attribute wins; an attribute
  without a value has the value \<open>None\<close>. \<open>starttag_text\<close> is what
  \<open>self.get_starttag_text()\<close> returns.
\<close>

definition choose_entity ::
  "runtime \<Rightarrow> parser \<Rightarrow> pystr \<Rightarrow> (pystr \<rightharpoonup> pystr option) \<Rightarrow> pystr option
     \<Rightarrow> error + outcome" where
  "choose_entity rt self tag attrs starttag_text =
    (if tag = ascii ''strong'' \<or> tag = ascii ''b'' then
       Inr (Continue self (Some MessageEntityBold))
     else if tag = ascii ''em'' \<or> tag = ascii ''i'' then
       Inr (Continue self (Some MessageEntityItalic))
     else if tag = ascii ''tg-spoiler'' then
       Inr (Continue self (Some MessageEntitySpoiler))
     else if tag = ascii ''u'' then
       Inr (Continue self (Some MessageEntityUnderline))
     else if tag = ascii ''del'' \<or> tag = ascii ''s'' then
       Inr (Continue self (Some MessageEntityStrike))
     else if tag = ascii ''blockquote'' then
       Inr (Continue self (Some MessageEntityBlockquote))
     else if tag = ascii ''code'' then
       (case building_entities self (ascii ''pre'') of
          None \<Rightarrow> Inr (Continue self (Some MessageEntityCode))
        | Some pre_entity \<Rightarrow>
           (case attrs (ascii ''class'') of
              None \<Rightarrow> Inr (Continue self None)
            | Some None \<Rightarrow> Inl TypeError
            | Some (Some cls) \<Rightarrow>
                Inr (Continue
                  (self\<lparr>building_entities := (building_entities self)
                      (ascii ''pre'' \<mapsto> set_language (drop (length (ascii ''language-'')) cls)
                                           pre_entity)\<rparr>)
                  None)))
     else if tag = ascii ''pre'' then
       Inr (Continue self (Some (\<lambda>off len. MessageEntityPre off len [])))
     else if tag = ascii ''a'' then
       (case attrs (ascii ''href'') of
          None \<Rightarrow> Inr (Return self)
        | Some None \<Rightarrow> Inl AttributeError
        | Some (Some href) \<Rightarrow>
           bind_res
             (if take (length (ascii ''mailto:'')) href = ascii ''mailto:'' then
                Inr (Some (drop (length (ascii ''mailto:'')) href), MessageEntityEmail)
              else if starttag_text = Some href then
                Inr (Some href, MessageEntityUrl)
              else
                bind_res (del_surrogate (host_little_endian rt) href) (\<lambda>u.
                  Inr (None, (\<lambda>off len. MessageEntityTextUrl off len u))))
             (\<lambda>(meta, entity_type).
                case open_tags_meta self of
                  [] \<Rightarrow> Inl IndexError
                | _ # metas \<Rightarrow>
                    Inr (Continue (self\<lparr>open_tags_meta := meta # metas\<rparr>) (Some entity_type))))
     else if tag = ascii ''emoji'' \<and> CUSTOM_EMOJIS rt then
       (case attrs (ascii ''document_id'') of
          None \<Rightarrow> Inl KeyError
        | Some None \<Rightarrow> Inl TypeError
        | Some (Some v) \<Rightarrow>
           (case int_of_str rt v of
              None \<Rightarrow> Inl ValueError
            | Some n \<Rightarrow> Inr (Continue self (Some (\<lambda>off len. MessageEntityCustomEmoji off len n)))))
     else Inr (Continue self None))"

definition handle_starttag ::
  "runtime \<Rightarrow> parser \<Rightarrow> pystr \<Rightarrow> (pystr \<times> pystr option) list \<Rightarrow> pystr option
     \<Rightarrow> error + parser" where
  "handle_starttag rt self tag attrs starttag_text =
     bind_res
       (choose_entity rt
          (self\<lparr>open_tags := tag # open_tags self,
                open_tags_meta := None # open_tags_meta self\<rparr>)
          tag (map_of (rev attrs)) starttag_text)
       (\<lambda>out. case out of
          Return self' \<Rightarrow> Inr self'
        | Continue self' None \<Rightarrow> Inr self'
        | Continue self' (Some entity_type) \<Rightarrow>
            if building_entities self' tag = None
            then Inr (self'\<lparr>building_entities := (building_entities self')
                        (tag \<mapsto> entity_type (int (length (text' self'))) 0)\<rparr>)
            else Inr self')"

definition handle_data :: "parser \<Rightarrow> pystr \<Rightarrow> error + parser" where
  "handle_data self data =
     (let previous_tag = (case open_tags self of [] \<Rightarrow> [] | t # _ \<Rightarrow> t) in
      bind_res
        (if previous_tag = ascii ''a'' then
           (case open_tags_meta self of
              [] \<Rightarrow> Inl IndexError
            | meta # _ \<Rightarrow>
               (case meta of
                  None \<Rightarrow> Inr data
                | Some u \<Rightarrow> if u \<noteq> [] then Inr u else Inr data))
         else Inr data)
        (\<lambda>emitted.
           Inr (self\<lparr>building_entities :=
                       (\<lambda>tag. map_option (add_length (int (length emitted)))
                                 (building_entities self tag)),
                     text' := text' self @ emitted\<rparr>)))"

text \<open>
  \<open>deque.popleft()\<close> raises \<open>IndexError\<close> on an empty deque. In \<open>handle_endtag\<close>
  the two calls stand in one \<open>try\<close> whose \<open>except IndexError\<close> passes: the second call
  is not reached when the first raises.
\<close>

definition popleft :: "'a list \<Rightarrow> error + 'a list" where
  "popleft d = (case d of [] \<Rightarrow> Inl IndexError | _ # r \<Rightarrow> Inr r)"

definition handle_endtag :: "parser \<Rightarrow> pystr \<Rightarrow> error + parser" where
  "handle_endtag self tag =
     (let self1 =
        (case popleft (open_tags self) of
           Inl e \<Rightarrow> self
         | Inr tags \<Rightarrow>
            (case popleft (open_tags_meta self) of
               Inl e \<Rightarrow> self\<lparr>open_tags := tags\<rparr>
             | Inr metas \<Rightarrow> self\<lparr>open_tags := tags, open_tags_meta := metas\<rparr>))
      in case building_entities self1 tag of
           None \<Rightarrow> Inr self1
         | Some entity \<Rightarrow>
             Inr (self1\<lparr>building_entities := (building_entities self1)(tag := None),
                        entities' := entities' self1 @ [entity]\<rparr>))"

text \<open>
  \<open>HTMLParser.feed\<close> of the standard library scans the markup and calls the three
  handlers; its scanner is a parameter that turns the markup into the calls it makes.
\<close>

datatype event =
    StartTag pystr "(pystr \<times> pystr option) list" "pystr option"
  | Data pystr
  | EndTag pystr

fun dispatch :: "runtime \<Rightarrow> parser \<Rightarrow> event \<Rightarrow> error + parser" where
  "dispatch rt self (StartTag tag attrs raw) = handle_starttag rt self tag attrs raw"
| "dispatch rt self (Data d) = handle_data self d"
| "dispatch rt self (EndTag tag) = handle_endtag self tag"

fun feed :: "runtime \<Rightarrow> parser \<Rightarrow> event list \<Rightarrow> error + parser" where
  "feed rt self [] = Inr self"
| "feed rt self (ev # evs) = bind_res (dispatch rt self ev) (\<lambda>self'. feed rt self' evs)"

text \<open>
  The argument of \<open>parse\<close> is declared \<open>str\<close>, but the test \<open>not html\<close> accepts any
  value; these are the values the model distinguishes.
\<close>

datatype pyval = PyNone | PyBool bool | PyInt int | PyStr pystr

fun truthy :: "pyval \<Rightarrow> bool" where
  "truthy PyNone = False"
| "truthy (PyBool b) = b"
| "truthy (PyInt i) = (i \<noteq> 0)"
| "truthy (PyStr s) = (s \<noteq> [])"

text \<open>
  \<open>parse\<close>, with the scanner of \<open>HTMLParser\<close> and \<open>helpers.strip_text\<close> (which
  returns the stripped text and adjusts the entities in place) as parameters. Iterating
  over a value that is not a string raises \<open>TypeError\<close>.
\<close>

definition parse ::
  "runtime \<Rightarrow> (pystr \<Rightarrow> event list)
     \<Rightarrow> (pystr \<Rightarrow> MessageEntity list \<Rightarrow> pystr \<times> MessageEntity list)
     \<Rightarrow> pyval \<Rightarrow> error + pyval \<times> MessageEntity list" where
  "parse rt scan strip_text html =
     (if \<not> truthy html then Inr (html, [])
      else case html of
        PyStr s \<Rightarrow>
          bind_res (add_surrogate s) (\<lambda>surrogated.
          bind_res (feed rt new_parser (scan surrogated)) (\<lambda>p.
            case strip_text (text' p) (entities' p) of
              (stripped, ents) \<Rightarrow>
                bind_res (del_surrogate (host_little_endian rt) stripped) (\<lambda>t.
                  Inr (PyStr t, ents))))
      | _ \<Rightarrow> Inl TypeError)"


section \<open>The unparser on a store\<close>

text \<open>
  Python lists and entities are objects: a caller that passes a list shares it with
  \<open>unparse\<close>. To state what \<open>unparse\<close> does to its arguments, the functions of
  the unparser are written a second time on a store of entity objects and list objects
  (lists of references), with a counter for the next free address. Strings and
  \<open>bytes\<close> are immutable values and stay outside the store. Every function returns its
  result, or the error raised, together with the store it leaves.
\<close>

type_synonym addr = nat

record heap =
  entity_at :: "addr \<Rightarrow> MessageEntity"
  list_at :: "addr \<Rightarrow> addr list"
  next_addr :: addr

text \<open>A new list object: the next free address, with the given references.\<close>

definition new_list :: "heap \<Rightarrow> addr list \<Rightarrow> addr \<times> heap" where
  "new_list h refs =
     (next_addr h, h\<lparr>list_at := (list_at h)(next_addr h := refs), next_addr := Suc (next_addr h)\<rparr>)"

text \<open>
  \<open>entities[i:]\<close>, \<open>list(filter(p, entities))\<close> and
  \<open>sorted(entities, key=lambda item: item.offset)\<close>: each reads a list object and
  the entity objects it refers to, and returns a new list object.
\<close>

definition slice_from :: "heap \<Rightarrow> addr \<Rightarrow> nat \<Rightarrow> addr \<times> heap" where
  "slice_from h l i = new_list h (drop i (list_at h l))"

definition list_filter :: "heap \<Rightarrow> (MessageEntity \<Rightarrow> bool) \<Rightarrow> addr \<Rightarrow> addr \<times> heap" where
  "list_filter h p l = new_list h (filter (\<lambda>a. p (entity_at h a)) (list_at h l))"

definition sorted_by_offset :: "heap \<Rightarrow> addr \<Rightarrow> addr \<times> heap" where
  "sorted_by_offset h l = new_list h (sort_key (\<lambda>a. offset (entity_at h a)) (list_at h l))"

text \<open>The fragment \<open>self.quote(self._remove_surrogates(text[a:b]))\<close>.\<close>

definition quoted_slice :: "decoration \<Rightarrow> byte list \<Rightarrow> int \<Rightarrow> int \<Rightarrow> error + pystr" where
  "quoted_slice self text a b =
     bind_res (remove_surrogates (py_slice text a b)) (\<lambda>s. Inr (quote self s))"

text \<open>
  The loop of \<open>_unparse_entities\<close> on the store. \<open>entities\<close> is the address of the
  list object, read again at every iteration, and \<open>index\<close> the position that
  \<open>enumerate\<close> has reached. The nested call \<open>self._unparse_entities(text,
  sub_entities, offset=start, length=offset)\<close> is written with its prologue applied:
  it starts at index 0, with the cursor \<open>start\<close> and the bound \<open>offset\<close>, or the
  length of the text when that bound is 0. The result is \<open>None\<close> if the loop does not
  return.
\<close>

partial_function (option) entities_loop_h ::
  "runtime \<Rightarrow> decoration \<Rightarrow> byte list \<Rightarrow> addr \<Rightarrow> nat \<Rightarrow> int \<Rightarrow> int \<Rightarrow> heap
     \<Rightarrow> ((error + pystr) \<times> heap) option"
where
  "entities_loop_h rt self text entities index pos lim h =
     (if length (list_at h entities) \<le> index then
        Some (if pos < lim then quoted_slice self text pos lim else Inr [], h)
      else
        let entity = list_at h entities ! index in
        if offset (entity_at h entity) * 2 < pos
        then entities_loop_h rt self text entities (Suc index) pos lim h
        else
          case (if offset (entity_at h entity) * 2 > pos
                then quoted_slice self text pos (offset (entity_at h entity) * 2)
                else Inr []) of
            Inl e \<Rightarrow> Some (Inl e, h)
          | Inr gap \<Rightarrow>
             let start = offset (entity_at h entity) * 2;
                 pos' = offset (entity_at h entity) * 2 + length' (entity_at h entity) * 2
             in
             case slice_from h entities (Suc index) of (rest, h1) \<Rightarrow>
             case list_filter h1 (\<lambda>e. offset e * 2 < pos') rest of (sub_entities, h2) \<Rightarrow>
             Option.bind
               (entities_loop_h rt self text sub_entities 0 start
                  (if pos' = 0 then int (length text) else pos') h2)
               (\<lambda>(inner, h3).
                  case inner of
                    Inl e \<Rightarrow> Some (Inl e, h3)
                  | Inr inner_text \<Rightarrow>
                     Option.bind (entities_loop_h rt self text entities (Suc index) pos' lim h3)
                       (\<lambda>(more, h4).
                          Some (bind_res more (\<lambda>m.
                                  Inr (gap @ apply_entity rt self (entity_at h3 entity) inner_text @ m)),
                                h4))))"


definition unparse_entities_h ::
  "runtime \<Rightarrow> decoration \<Rightarrow> byte list \<Rightarrow> addr \<Rightarrow> int option \<Rightarrow> int option \<Rightarrow> heap
     \<Rightarrow> ((error + pystr) \<times> heap) option" where
  "unparse_entities_h rt self text entities offs len h =
     entities_loop_h rt self text entities 0
       (case offs of None \<Rightarrow> 0 | Some p \<Rightarrow> p)
       (case len of None \<Rightarrow> int (length text)
        | Some l \<Rightarrow> if l = 0 then int (length text) else l) h"

definition unparse_h' ::
  "runtime \<Rightarrow> decoration \<Rightarrow> pystr \<Rightarrow> addr option \<Rightarrow> heap
     \<Rightarrow> ((error + pystr) \<times> heap) option" where
  "unparse_h' rt self text entities h =
     (case add_surrogates text of
        Inl e \<Rightarrow> Some (Inl e, h)
      | Inr data \<Rightarrow>
         (case (case entities of
                  None \<Rightarrow> new_list h []
                | Some l \<Rightarrow> if list_at h l \<noteq> [] then sorted_by_offset h l else new_list h [])
          of (sorted_entities, h1) \<Rightarrow>
            unparse_entities_h rt self data sorted_entities None None h1))"

definition unparse_h ::
  "runtime \<Rightarrow> pystr \<Rightarrow> addr option \<Rightarrow> heap \<Rightarrow> ((error + pystr) \<times> heap) option" where
  "unparse_h rt text entities h = unparse_h' rt html_decoration text entities h"

section \<open>Reference functions for the statements\<close>

text \<open>
  The string in which every code point above U+FFFF is replaced by its surrogate pair,
  and the escaping of one character that the quote rule prescribes.
\<close>

definition surrogate_pairs :: "pystr \<Rightarrow> pystr" where
  "surrogate_pairs s =
     concat (map (\<lambda>c. if 0xFFFF < c \<and> c \<le> 0x10FFFF
                       then [high_surrogate c, low_surrogate c] else [c]) s)"

definition escape_char :: "nat \<Rightarrow> pystr" where
  "escape_char c = (if c = 38 then ascii ''&amp;'' else if c = 60 then ascii ''&lt;''
                    else if c = 62 then ascii ''&gt;'' else [c])"

text \<open>
  A store extends another when it has the same entity objects, the same contents in
  every list object that was allocated, and a counter that is not smaller.
\<close>

definition extends :: "heap \<Rightarrow> heap \<Rightarrow> bool" where
  "extends h h' \<longleftrightarrow> entity_at h' = entity_at h
     \<and> (\<forall>a < next_addr h. list_at h' a = list_at h a) \<and> next_addr h \<le> next_addr h'"

text \<open>The parser state in which the \<open>if\<close>/\<open>elif\<close> chain ends.\<close>

fun state_of :: "outcome \<Rightarrow> parser" where
  "state_of (Return s) = s"
| "state_of (Continue s et) = s"

section \<open>Inputs for the concrete checks\<close>

text \<open>
  A runtime for the evaluations below: the flag as the module sets it, the ASCII digits
  for \<open>\d\<close>, a little-endian host, and an \<open>int\<close> that reads ASCII digits only. None
  of the evaluated inputs reaches a digit test or \<open>int\<close>.
\<close>

definition sample_runtime :: runtime where
  "sample_runtime = \<lparr>CUSTOM_EMOJIS = True, unicode_decimal = (\<lambda>c. 48 \<le> c \<and> c \<le> 57),
     host_little_endian = True,
     int_of_str = (\<lambda>s. if s \<noteq> [] \<and> list_all (\<lambda>c. 48 \<le> c \<and> c \<le> 57) s
                         then Some (foldl (\<lambda>n c. 10 * n + (int c - 48)) 0 s) else None)\<rparr>"

text \<open>
  An entity reaches past the end of the text when its end, doubled into the byte buffer
  as the unparser does, lies beyond the buffer.
\<close>

definition extends_past_end :: "pystr \<Rightarrow> MessageEntity \<Rightarrow> bool" where
  "extends_past_end text entity =
     (case add_surrogates text of
        Inl e \<Rightarrow> False
      | Inr data \<Rightarrow> int (length data) < offset entity * 2 + length' entity * 2)"

text \<open>The text of the test \<open>test_malformed_entities\<close>: a trophy, 43 letters, a trophy, a dot.\<close>

definition trophy_text :: pystr where
  "trophy_text =
     [0x1F3C6] @ ascii ''Telegram Official Android Challenge is over'' @ [0x1F3C6] @ ascii ''.''"

text \<open>
  A parser state after \<open><code>a<pre>b\<close>: both tag names have an open entity.
\<close>

definition nested_code_parser :: parser where
  "nested_code_parser = \<lparr>text' = ascii ''ab'', entities' = [],
     building_entities = [ascii ''code'' \<mapsto> MessageEntityCode 0 2,
                          ascii ''pre'' \<mapsto> MessageEntityPre 1 1 []],
     open_tags = [ascii ''pre'', ascii ''code''], open_tags_meta = [None, None]\<rparr>"

text \<open>
  A store with two bold entities and, at address 2, a list that holds them in
  descending order of offset.
\<close>

definition sample_heap :: heap where
  "sample_heap = \<lparr>entity_at = (\<lambda>a. if a = 0 then MessageEntityBold 0 5 else MessageEntityBold 7 5),
     list_at = (\<lambda>a. if a = 2 then [1, 0] else []), next_addr = 3\<rparr>"

section \<open>Properties\<close>

subsection \<open>Evaluation\<close>

lemmas eval_defs = unparse_def unparse'_def add_surrogates_def remove_surrogates_def
  encode_utf_16_le_def encode_char_def unit_bytes_def high_surrogate_def low_surrogate_def
  is_surrogate_def decode_utf_16_le_def join_surrogates_def py_slice_def slice_bound_def
  apply_entity_def match_emoji_def html_decoration_def escape_def replace_char_def ascii_def
  sort_key_def sample_runtime_def trophy_text_def Let_def

subsection \<open>The surrogate codec\<close>

lemma unat_low_byte: "unat (of_nat (u mod 256) :: byte) = u mod 256"
  by (simp add: unat_of_nat)

lemma unat_high_byte: "u < 65536 \<Longrightarrow> unat (of_nat (u div 256) :: byte) = u div 256"
  by (simp add: unat_of_nat)

lemma bytes_to_units_unit:
  "u < 65536 \<Longrightarrow> bytes_to_units le (unit_bytes le u @ bs) =
     bind_res (bytes_to_units le bs) (\<lambda>us. Inr (u # us))"
  by (simp add: unit_bytes_def unat_low_byte unat_high_byte)

lemma high_surrogate_range:
  "0x10000 \<le> c \<Longrightarrow> c \<le> 0x10FFFF \<Longrightarrow>
     0xD800 \<le> high_surrogate c \<and> high_surrogate c \<le> 0xDBFF"
  by (simp add: high_surrogate_def)

lemma low_surrogate_range: "0xDC00 \<le> low_surrogate c \<and> low_surrogate c \<le> 0xDFFF"
  by (simp add: low_surrogate_def)

lemma join_split:
  "0x10000 \<le> c \<Longrightarrow> join_surrogates (high_surrogate c) (low_surrogate c) = c"
  by (simp add: join_surrogates_def high_surrogate_def low_surrogate_def)

lemma surrogate_pairs_Cons:
  "surrogate_pairs (c # s) =
     (if 0xFFFF < c \<and> c \<le> 0x10FFFF then [high_surrogate c, low_surrogate c] else [c])
       @ surrogate_pairs s"
  by (simp add: surrogate_pairs_def)

lemma unpack_encode_char:
  assumes "0x10000 \<le> x" "x \<le> 0x10FFFF"
  shows "bind_res (encode_utf_16_le [x]) unpack_HH = Inr [high_surrogate x, low_surrogate x]"
proof -
  have h: "high_surrogate x < 65536" using high_surrogate_range[OF assms] by simp
  have l: "low_surrogate x < 65536" using low_surrogate_range[of x] by simp
  have dm: "\<And>u::nat. u mod 256 + 256 * (u div 256) = u" by simp
  show ?thesis using assms
    by (simp add: encode_utf_16_le_def encode_char_def unit_bytes_def
        unat_low_byte unat_high_byte[OF h] unat_high_byte[OF l] dm)
qed

lemma add_surrogate_eq: "add_surrogate s = Inr (surrogate_pairs s)"
proof (induction s)
  case Nil
  show ?case by (simp add: surrogate_pairs_def)
next
  case (Cons x s)
  show ?case
  proof (cases "0x10000 \<le> x \<and> x \<le> 0x10FFFF")
    case True
    then have "bind_res (encode_utf_16_le [x]) unpack_HH = Inr [high_surrogate x, low_surrogate x]"
      by (simp add: unpack_encode_char)
    with True Cons show ?thesis by (simp add: surrogate_pairs_Cons)
  next
    case False
    with Cons show ?thesis by (auto simp add: surrogate_pairs_Cons)
  qed
qed

lemma encode_units_units:
  "list_all (\<lambda>u. u < 0x10000) us \<Longrightarrow>
   \<exists>bs. encode_units le True us = Inr bs \<and> bytes_to_units le bs = Inr us"
proof (induction us)
  case Nil
  show ?case by simp
next
  case (Cons u us)
  then obtain bs where bs: "encode_units le True us = Inr bs" "bytes_to_units le bs = Inr us"
    by auto
  from Cons.prems have u: "u < 65536" by simp
  show ?case using u bs by (simp add: encode_char_def bytes_to_units_unit)
qed

lemma surrogate_pairs_units:
  "is_str s \<Longrightarrow> list_all (\<lambda>u. u < 0x10000) (surrogate_pairs s)"
proof (induction s)
  case Nil
  show ?case by (simp add: surrogate_pairs_def)
next
  case (Cons c s)
  then have "list_all (\<lambda>u. u < 0x10000) (surrogate_pairs s)" by (simp add: is_str_def)
  moreover have "c < 0x110000" using Cons.prems by (simp add: is_str_def)
  ultimately show ?case
    using high_surrogate_range[of c] low_surrogate_range[of c]
    by (auto simp: surrogate_pairs_Cons)
qed

lemma units_to_str_pairs:
  "is_scalar_str s \<Longrightarrow> units_to_str (surrogate_pairs s) = Inr s"
proof (induction s)
  case Nil
  show ?case by (simp add: surrogate_pairs_def)
next
  case (Cons c s)
  then have ih: "units_to_str (surrogate_pairs s) = Inr s" by (simp add: is_scalar_str_def)
  have c: "c < 0x110000" "\<not> is_surrogate c"
    using Cons.prems by (simp_all add: is_scalar_str_def)
  show ?case
  proof (cases "0xFFFF < c")
    case True
    then have sp: "surrogate_pairs (c # s) = high_surrogate c # low_surrogate c # surrogate_pairs s"
      using c by (simp add: surrogate_pairs_Cons)
    show ?thesis
      using True c ih high_surrogate_range[of c] low_surrogate_range[of c] join_split[of c]
      by (simp add: sp is_surrogate_def)
  next
    case False
    then have sp: "surrogate_pairs (c # s) = c # surrogate_pairs s"
      by (simp add: surrogate_pairs_Cons)
    show ?thesis
    proof (cases "surrogate_pairs s")
      case Nil
      with ih have "s = []" by simp
      with c sp Nil show ?thesis by simp
    next
      case (Cons v vs)
      with c sp ih show ?thesis by simp
    qed
  qed
qed

lemma decode_bom:
  "decode_utf_16 le (unit_bytes le 0xFEFF @ bs) = bind_res (bytes_to_units le bs) units_to_str"
  by (simp add: decode_utf_16_def unit_bytes_def)

lemma scalar_is_str: "is_scalar_str s \<Longrightarrow> is_str s"
  by (simp add: is_scalar_str_def is_str_def list_all_iff)

text \<open>
  C5. For a string of Unicode scalar values, \<open>_add_surrogate\<close> does not fail and
  returns the string in which every scalar above U+FFFF is replaced by its UTF-16
  surrogate pair, high surrogate first, and every other scalar is kept; and
  \<open>_del_surrogate\<close> of that result is the original string, whatever the host's byte
  order.
\<close>

theorem surrogate_codec_roundtrip:
  assumes "is_scalar_str s"
  shows "add_surrogate s =
           Inr (concat (map (\<lambda>c. if 0xFFFF < c
                  then [0xD800 + (c - 0x10000) div 0x400, 0xDC00 + (c - 0x10000) mod 0x400]
                  else [c]) s))
         \<and> (\<exists>t. add_surrogate s = Inr t \<and> del_surrogate host_le t = Inr s)"
proof -
  have str: "is_str s" using assms by (rule scalar_is_str)
  have "surrogate_pairs s = concat (map (\<lambda>c. if 0xFFFF < c
                  then [0xD800 + (c - 0x10000) div 0x400, 0xDC00 + (c - 0x10000) mod 0x400]
                  else [c]) s)"
    unfolding surrogate_pairs_def high_surrogate_def low_surrogate_def
    using str by (intro arg_cong[where f=concat] map_cong) (auto simp: is_str_def list_all_iff)
  moreover
  obtain bs where bs: "encode_units host_le True (surrogate_pairs s) = Inr bs"
      "bytes_to_units host_le bs = Inr (surrogate_pairs s)"
    using encode_units_units[OF surrogate_pairs_units[OF str]] by blast
  have "del_surrogate host_le (surrogate_pairs s) = Inr s"
    by (simp add: del_surrogate_def encode_utf_16_def bs decode_bom units_to_str_pairs[OF assms])
  ultimately show ?thesis by (simp add: add_surrogate_eq)
qed

theorem surrogate_codec_roundtrip_witness:
  "is_scalar_str [0x1F3C6, 65]
   \<and> add_surrogate [0x1F3C6, 65] = Inr [0xD83C, 0xDFC6, 65]
   \<and> del_surrogate True [0xD83C, 0xDFC6, 65] = Inr [0x1F3C6, 65]"
proof -
  have h: "is_scalar_str [0x1F3C6, 65]"
    by (simp add: is_scalar_str_def is_surrogate_def)
  note r = surrogate_codec_roundtrip[OF h, of True]
  from r have a: "add_surrogate [0x1F3C6, 65] = Inr [0xD83C, 0xDFC6, 65]"
    by (simp del: add_surrogate.simps)
  from r obtain t where t: "add_surrogate [0x1F3C6, 65] = Inr t"
    "del_surrogate True t = Inr [0x1F3C6, 65]" by blast
  from t(1) a have "t = [0xD83C, 0xDFC6, 65]" by (simp del: add_surrogate.simps)
  with t(2) h a show ?thesis by (simp del: add_surrogate.simps)
qed

subsection \<open>The unparser on the inputs of the tests\<close>

text \<open>
  C1. \<open>unparse\<close> raises on a well-formed text with an entity whose offset lies inside a
  surrogate pair: for the text of one trophy emoji and a bold entity at offset 1 of
  length 1, the gap before the entity is the first half of the pair, and decoding it
  raises \<open>UnicodeDecodeError\<close>.
\<close>

theorem unparse_raises_inside_surrogate_pair:
  "unparse sample_runtime [0x1F3C6] (Some [MessageEntityBold 1 1]) = Inl UnicodeDecodeError"
  by (simp add: eval_defs)

text \<open>
  C2. For the text "Hello, world" with bold entities at (0, 5) and (7, 5), \<open>unparse\<close>
  returns the spans in \<open>b\<close> tags, not in \<open>strong\<close> tags.
\<close>

theorem unparse_edge_entities_uses_b_tags:
  "unparse sample_runtime (ascii ''Hello, world'')
     (Some [MessageEntityBold 0 5, MessageEntityBold 7 5])
   = Inr (ascii ''<b>Hello</b>, <b>world</b>'')
   \<and> ascii ''<b>Hello</b>, <b>world</b>'' \<noteq> ascii ''<strong>Hello</strong>, <strong>world</strong>''"
  by (simp add: eval_defs)

subsection \<open>Unparsing without entities\<close>

lemma replace_char_append:
  "replace_char old new (xs @ ys) = replace_char old new xs @ replace_char old new ys"
  by (simp add: replace_char_def)

lemma escape_Cons: "escape (c # s) = escape_char c @ escape s"
  by (simp add: escape_def replace_char_def escape_char_def ascii_def)

lemma escape_eq: "escape s = concat (map escape_char s)"
proof (induction s)
  case Nil
  show ?case by (simp add: escape_def replace_char_def)
next
  case (Cons c s)
  then show ?case by (simp add: escape_Cons)
qed

lemma unit_bytes_not_Nil: "unit_bytes le u \<noteq> []"
  by (simp add: unit_bytes_def)

lemma quote_html: "quote html_decoration = escape"
  by (simp add: html_decoration_def)

lemma encode_strict_units:
  "is_scalar_str s \<Longrightarrow>
   \<exists>bs. encode_units le False s = Inr bs \<and> bytes_to_units le bs = Inr (surrogate_pairs s)
        \<and> (bs = [] \<longleftrightarrow> s = [])"
proof (induction s)
  case Nil
  show ?case by (simp add: surrogate_pairs_def)
next
  case (Cons c s)
  then obtain bs where bs: "encode_units le False s = Inr bs"
      "bytes_to_units le bs = Inr (surrogate_pairs s)"
    by (auto simp: is_scalar_str_def)
  have c: "c < 0x110000" "\<not> is_surrogate c"
    using Cons.prems by (simp_all add: is_scalar_str_def)
  show ?case
  proof (cases "c < 0x10000")
    case True
    with c bs show ?thesis
      by (simp add: encode_char_def bytes_to_units_unit surrogate_pairs_Cons unit_bytes_not_Nil)
  next
    case False
    then have r: "0x10000 \<le> c" "c \<le> 0x10FFFF" using c by simp_all
    have h: "high_surrogate c < 65536" using high_surrogate_range[OF r] by simp
    have l: "low_surrogate c < 65536" using low_surrogate_range[of c] by simp
    have "bytes_to_units le (unit_bytes le (high_surrogate c) @ unit_bytes le (low_surrogate c) @ bs)
          = Inr (high_surrogate c # low_surrogate c # surrogate_pairs s)"
      by (simp add: bytes_to_units_unit[OF h] bytes_to_units_unit[OF l] bs)
    with False r bs show ?thesis
      by (simp add: encode_char_def surrogate_pairs_Cons unit_bytes_not_Nil)
  qed
qed

lemma py_slice_all: "py_slice xs 0 (int (length xs)) = xs"
  by (auto simp: py_slice_def slice_bound_def Let_def)

lemma unparse_entities_none:
  assumes "is_scalar_str s"
  shows "bind_res (add_surrogates s) (\<lambda>data. unparse_entities rt self data [] None None)
         = Inr (if s = [] then [] else quote self s)"
proof -
  obtain bs where bs: "encode_units True False s = Inr bs"
      "bytes_to_units True bs = Inr (surrogate_pairs s)" "bs = [] \<longleftrightarrow> s = []"
    using encode_strict_units[OF assms] by blast
  show ?thesis
    using bs units_to_str_pairs[OF assms]
    by (simp add: add_surrogates_def encode_utf_16_le_def remove_surrogates_def
        decode_utf_16_le_def py_slice_all)
qed

text \<open>
  C7, as amended. For a text of Unicode scalar values, \<open>unparse\<close> with the entities
  absent or empty returns the text with each ampersand, less-than and greater-than sign
  replaced by its character reference and every other character, the two quote
  characters among them, unchanged.
\<close>

theorem unparse_without_entities:
  assumes "is_scalar_str s" and "entities = None \<or> entities = Some []"
  shows "unparse rt s entities =
           Inr (concat (map (\<lambda>c. if c = 38 then ascii ''&amp;''
                                  else if c = 60 then ascii ''&lt;''
                                  else if c = 62 then ascii ''&gt;'' else [c]) s))"
proof -
  have "unparse rt s entities =
        bind_res (add_surrogates s) (\<lambda>data. unparse_entities rt html_decoration data [] None None)"
    using assms(2) by (auto simp: unparse_def unparse'_def)
  also have "\<dots> = Inr (if s = [] then [] else escape s)"
    by (simp only: unparse_entities_none[OF assms(1)] quote_html)
  also have "\<dots> = Inr (concat (map escape_char s))"
    by (simp add: escape_eq)
  finally show ?thesis by (simp add: escape_char_def[abs_def])
qed

theorem unparse_without_entities_witness:
  "is_scalar_str (ascii ''a<b & '' @ [34, 99, 34] @ ascii '' > '' @ [39, 100, 39])
   \<and> unparse sample_runtime (ascii ''a<b & '' @ [34, 99, 34] @ ascii '' > '' @ [39, 100, 39]) None
     = Inr (ascii ''a&lt;b &amp; '' @ [34, 99, 34] @ ascii '' &gt; '' @ [39, 100, 39])
   \<and> unparse sample_runtime (ascii ''a<b & '' @ [34, 99, 34] @ ascii '' > '' @ [39, 100, 39]) (Some [])
     = Inr (ascii ''a&lt;b &amp; '' @ [34, 99, 34] @ ascii '' &gt; '' @ [39, 100, 39])"
proof -
  have h: "is_scalar_str (ascii ''a<b & '' @ [34, 99, 34] @ ascii '' > '' @ [39, 100, 39])"
    by (simp add: is_scalar_str_def is_surrogate_def ascii_def)
  show ?thesis
    using h unparse_without_entities[OF h, of None sample_runtime]
      unparse_without_entities[OF h, of "Some []" sample_runtime]
    by (simp add: ascii_def)
qed

text \<open>
  C7, as stated for every text, fails on a string that holds a surrogate code point:
  the strict encoder refuses it.
\<close>

theorem unparse_lone_surrogate_raises:
  "is_str [0xD800] \<and> unparse sample_runtime [0xD800] None = Inl UnicodeEncodeError"
  by (simp add: is_str_def eval_defs)

subsection \<open>Entities that start before the cursor\<close>

text \<open>
  C4, as amended. In the loop of one call of \<open>_unparse_entities\<close>, entities whose
  doubled offset is strictly below the cursor are passed over: the loop on them followed
  by the remaining entities gives what the loop on the remaining entities gives from the
  same cursor and bound, so for them this call yields no decoration and no text, the
  cursor stays where it is, and no later nested call receives them. The comparison is
  strict: an entity whose doubled offset equals the cursor is rendered, around the
  nested rendering of the later entities that start before its end, and the cursor
  moves to its end.
\<close>

theorem skipped_entities:
  assumes "\<forall>x \<in> set skipped. offset x * 2 < pos"
  shows "entities_loop rt self data (skipped @ rest) pos lim = entities_loop rt self data rest pos lim
       \<and> (offset e * 2 = pos \<longrightarrow>
            entities_loop rt self data (skipped @ e # rest) pos lim =
              bind_res (unparse_entities rt self data
                          (filter (\<lambda>x. offset x * 2 < pos + length' e * 2) rest)
                          (Some pos) (Some (pos + length' e * 2)))
                (\<lambda>inner.
                   bind_res (entities_loop rt self data rest (pos + length' e * 2) lim)
                     (\<lambda>more. Inr (apply_entity rt self e inner @ more))))"
proof -
  have skip: "entities_loop rt self data (skipped @ r) pos lim = entities_loop rt self data r pos lim"
    for r
    using assms by (induction skipped) simp_all
  show ?thesis
    by (simp add: skip Let_def)
qed

theorem skipped_entities_witness:
  "offset (MessageEntityItalic 1 2) * 2 < 8 \<and> offset (MessageEntityBold 2 1) * 2 < 8
   \<and> offset (MessageEntityCode 4 1) * 2 = 8
   \<and> entities_loop sample_runtime html_decoration
        [97, 0, 98, 0, 99, 0, 100, 0, 101, 0, 102, 0]
        ([MessageEntityItalic 1 2, MessageEntityBold 2 1] @ []) 8 12
      = Inr (ascii ''ef'')
   \<and> entities_loop sample_runtime html_decoration
        [97, 0, 98, 0, 99, 0, 100, 0, 101, 0, 102, 0]
        ([MessageEntityItalic 1 2, MessageEntityBold 2 1] @ [MessageEntityCode 4 1]) 8 12
      = Inr (ascii ''<code>e</code>f'')"
proof -
  let ?d = "[97, 0, 98, 0, 99, 0, 100, 0, 101, 0, 102, 0] :: byte list"
  have h: "\<forall>x \<in> set [MessageEntityItalic 1 2, MessageEntityBold 2 1]. offset x * 2 < 8"
    by simp
  have q: "offset (MessageEntityCode 4 1) * 2 = 8" by simp
  note t = skipped_entities[OF h, of sample_runtime html_decoration ?d "[]" 12 "MessageEntityCode 4 1"]
  have r1: "entities_loop sample_runtime html_decoration ?d [] 8 12 = Inr (ascii ''ef'')"
    by (simp add: eval_defs)
  have r2: "bind_res (unparse_entities sample_runtime html_decoration ?d
                          (filter (\<lambda>x. offset x * 2 < 8 + length' (MessageEntityCode 4 1) * 2) [])
                          (Some 8) (Some (8 + length' (MessageEntityCode 4 1) * 2)))
                (\<lambda>inner.
                   bind_res (entities_loop sample_runtime html_decoration ?d []
                               (8 + length' (MessageEntityCode 4 1) * 2) 12)
                     (\<lambda>more. Inr (apply_entity sample_runtime html_decoration
                                     (MessageEntityCode 4 1) inner @ more)))
             = Inr (ascii ''<code>e</code>f'')"
    by (simp add: eval_defs)
  from t[THEN conjunct1] r1
  have a: "entities_loop sample_runtime html_decoration ?d
        ([MessageEntityItalic 1 2, MessageEntityBold 2 1] @ []) 8 12 = Inr (ascii ''ef'')"
    by (rule trans)
  from t[THEN conjunct2, rule_format, OF q] r2
  have b: "entities_loop sample_runtime html_decoration ?d
        ([MessageEntityItalic 1 2, MessageEntityBold 2 1] @ [MessageEntityCode 4 1]) 8 12
      = Inr (ascii ''<code>e</code>f'')"
    by (rule trans)
  from a b show ?thesis by simp
qed

text \<open>
  C4, as stated, says that an entity which starts before the cursor adds no decoration
  and no text to the output. In "abcdef" with bold at (0, 4) and italic at (2, 4) the
  italic entity starts before the cursor that the bold entity leaves (unit 2 against
  unit 4), and the outer loop passes over it; but the nested call for the bold entity
  has rendered it already, so its tags and its text are in the output.
\<close>

theorem entity_below_cursor_rendered_by_nested_call:
  "offset (MessageEntityItalic 2 4) * 2
     < offset (MessageEntityBold 0 4) * 2 + length' (MessageEntityBold 0 4) * 2
   \<and> entities_loop sample_runtime html_decoration
        [97, 0, 98, 0, 99, 0, 100, 0, 101, 0, 102, 0] [MessageEntityItalic 2 4] 8 12
      = Inr (ascii ''ef'')
   \<and> unparse sample_runtime (ascii ''abcdef'')
        (Some [MessageEntityBold 0 4, MessageEntityItalic 2 4])
      = Inr (ascii ''<b>ab<i>cdef</i></b>ef'')
   \<and> unparse sample_runtime (ascii ''abcdef'') (Some [MessageEntityBold 0 4])
      = Inr (ascii ''<b>abcd</b>ef'')"
  by (simp add: eval_defs)

subsection \<open>The parser\<close>

text \<open>
  C6. On an input that is empty or otherwise falsy, \<open>parse\<close> returns the input itself
  with an empty entity list.
\<close>

theorem parse_falsy_input:
  "\<not> truthy html \<Longrightarrow> parse rt scan strip_text html = Inr (html, [])"
  by (simp add: parse_def)

theorem parse_falsy_input_witness:
  "\<not> truthy (PyStr []) \<and> \<not> truthy PyNone
   \<and> parse sample_runtime (\<lambda>s. [Data s]) (\<lambda>t es. (t, es)) (PyStr []) = Inr (PyStr [], [])
   \<and> parse sample_runtime (\<lambda>s. [Data s]) (\<lambda>t es. (t, es)) PyNone = Inr (PyNone, [])"
  using parse_falsy_input[of "PyStr []" sample_runtime "\<lambda>s. [Data s]" "\<lambda>t es. (t, es)"]
    parse_falsy_input[of PyNone sample_runtime "\<lambda>s. [Data s]" "\<lambda>t es. (t, es)"]
  by simp

lemma offset_set_language [simp]: "offset (set_language s e) = offset e"
  by (cases e) simp_all

lemma length_set_language [simp]: "length' (set_language s e) = length' e"
  by (cases e) simp_all

lemma bind_res_Inr_iff: "bind_res m f = Inr y \<longleftrightarrow> (\<exists>x. m = Inr x \<and> f x = Inr y)"
  by (cases m) simp_all

lemma ascii_code_pre: "ascii ''code'' \<noteq> ascii ''pre''"
  by (simp add: ascii_def)

lemma anchor_tail:
  assumes "(case open_tags_meta s of
              [] \<Rightarrow> Inl IndexError
            | _ # metas \<Rightarrow> Inr (Continue (s\<lparr>open_tags_meta := meta # metas\<rparr>) (Some et)))
           = Inr out"
  shows "entities' (state_of out) = entities' s \<and> text' (state_of out) = text' s
       \<and> building_entities (state_of out) = building_entities s"
  using assms by (cases "open_tags_meta s") auto

lemma choose_entity_effect:
  assumes "choose_entity rt s tag attrs raw = Inr out"
  shows "entities' (state_of out) = entities' s \<and> text' (state_of out) = text' s
       \<and> (building_entities (state_of out) = building_entities s
          \<or> (tag = ascii ''code'' \<and>
              (\<exists>p l. building_entities s (ascii ''pre'') = Some p
                 \<and> building_entities (state_of out)
                     = (building_entities s)(ascii ''pre'' \<mapsto> set_language l p))))"
proof (cases "tag = ascii ''a''")
  case True
  show ?thesis
  proof (cases "attrs (ascii ''href'')")
    case None
    with True assms show ?thesis by (auto simp: choose_entity_def ascii_def)
  next
    case (Some v)
    show ?thesis
    proof (cases v)
      case None
      with Some True assms show ?thesis by (auto simp: choose_entity_def ascii_def)
    next
      case (Some href)
      with \<open>attrs (ascii ''href'') = Some v\<close> True assms
      obtain meta et where "(case open_tags_meta s of
              [] \<Rightarrow> Inl IndexError
            | _ # metas \<Rightarrow> Inr (Continue (s\<lparr>open_tags_meta := meta # metas\<rparr>) (Some et)))
           = Inr out"
        by (auto simp: choose_entity_def ascii_def bind_res_Inr_iff split: if_splits)
      from anchor_tail[OF this] show ?thesis by simp
    qed
  qed
next
  case False
  with assms show ?thesis
    unfolding choose_entity_def
    by (auto split: if_splits option.splits)
qed

text \<open>
  C8. The open entities are a dictionary keyed by tag name, so a tag name has at most
  one. When a start tag arrives whose name already has an open entity and the handler
  returns, that entity is exactly as before, the set of tag names with an open entity is
  the same, no entity is appended to the closed ones, and every open entity keeps its
  offset and its length (a \<open>code\<close> tag inside \<open>pre\<close> may set the language of the
  open \<open>pre\<close> entity).
\<close>

theorem reopening_open_tag:
  assumes "building_entities self tag = Some b"
    and "handle_starttag rt self tag attrs raw = Inr self'"
  shows "building_entities self' tag = Some b
       \<and> dom (building_entities self') = dom (building_entities self)
       \<and> entities' self' = entities' self
       \<and> (\<forall>t e. building_entities self t = Some e \<longrightarrow>
             (\<exists>e'. building_entities self' t = Some e'
                  \<and> offset e' = offset e \<and> length' e' = length' e))"
proof -
  define s0 where "s0 = self\<lparr>open_tags := tag # open_tags self,
                open_tags_meta := None # open_tags_meta self\<rparr>"
  define finish where "finish = (\<lambda>out. case out of
          Return self' \<Rightarrow> Inr self'
        | Continue self' None \<Rightarrow> Inr self'
        | Continue self' (Some entity_type) \<Rightarrow>
            if building_entities self' tag = None
            then Inr (self'\<lparr>building_entities := (building_entities self')
                        (tag \<mapsto> entity_type (int (length (text' self'))) 0)\<rparr>)
            else (Inr self' :: error + parser))"
  have "handle_starttag rt self tag attrs raw
        = bind_res (choose_entity rt s0 tag (map_of (rev attrs)) raw) finish"
    by (simp add: handle_starttag_def s0_def finish_def)
  with assms(2) obtain out where out: "choose_entity rt s0 tag (map_of (rev attrs)) raw = Inr out"
    and fin: "finish out = Inr self'"
    by (auto simp: bind_res_Inr_iff)
  have s0: "building_entities s0 = building_entities self" "entities' s0 = entities' self"
    by (simp_all add: s0_def)
  from choose_entity_effect[OF out] s0
  have ent: "entities' (state_of out) = entities' self"
    and bld: "building_entities (state_of out) = building_entities self
          \<or> (tag = ascii ''code'' \<and>
              (\<exists>p l. building_entities self (ascii ''pre'') = Some p
                 \<and> building_entities (state_of out)
                     = (building_entities self)(ascii ''pre'' \<mapsto> set_language l p)))"
    by simp_all
  from bld assms(1) have tagopen: "building_entities (state_of out) tag = Some b"
    using ascii_code_pre by auto
  with fin have self': "self' = state_of out"
    by (cases out) (auto simp: finish_def split: option.splits if_splits)
  from bld show ?thesis
  proof
    assume "building_entities (state_of out) = building_entities self"
    with self' ent tagopen show ?thesis by simp
  next
    assume "tag = ascii ''code'' \<and>
              (\<exists>p l. building_entities self (ascii ''pre'') = Some p
                 \<and> building_entities (state_of out)
                     = (building_entities self)(ascii ''pre'' \<mapsto> set_language l p))"
    then obtain p l where p: "building_entities self (ascii ''pre'') = Some p"
      "building_entities (state_of out) = (building_entities self)(ascii ''pre'' \<mapsto> set_language l p)"
      by blast
    have "dom (building_entities (state_of out)) = dom (building_entities self)"
      using p by auto
    moreover have "\<forall>t e. building_entities self t = Some e \<longrightarrow>
             (\<exists>e'. building_entities (state_of out) t = Some e'
                  \<and> offset e' = offset e \<and> length' e' = length' e)"
      using p by auto
    ultimately show ?thesis using self' ent tagopen by simp
  qed
qed

theorem reopening_open_tag_witness:
  "building_entities nested_code_parser (ascii ''code'') = Some (MessageEntityCode 0 2)
   \<and> (\<exists>self'. handle_starttag sample_runtime nested_code_parser (ascii ''code'')
                 [(ascii ''class'', Some (ascii ''language-py''))] None = Inr self'
         \<and> building_entities self' (ascii ''code'') = Some (MessageEntityCode 0 2)
         \<and> building_entities self' (ascii ''pre'') = Some (MessageEntityPre 1 1 (ascii ''py''))
         \<and> dom (building_entities self') = dom (building_entities nested_code_parser)
         \<and> entities' self' = [])"
proof -
  have h1: "building_entities nested_code_parser (ascii ''code'') = Some (MessageEntityCode 0 2)"
    by (simp add: nested_code_parser_def ascii_def)
  obtain self' where h2: "handle_starttag sample_runtime nested_code_parser (ascii ''code'')
                 [(ascii ''class'', Some (ascii ''language-py''))] None = Inr self'"
    and p: "building_entities self' (ascii ''pre'') = Some (MessageEntityPre 1 1 (ascii ''py''))"
    by (simp add: handle_starttag_def choose_entity_def nested_code_parser_def ascii_def)
  from reopening_open_tag[OF h1 h2] h1 h2 p show ?thesis
    by (simp add: nested_code_parser_def)
qed

text \<open>
  C9. \<open>handle_endtag\<close> never raises. It leaves the text alone and keeps the closed
  entities as a prefix of the new list; with an empty tag stack the stacks stay as they
  are; and when the tag name has no open entity, nothing is appended and the open
  entities are unchanged.
\<close>

theorem handle_endtag_tolerant:
  "\<exists>self'. handle_endtag self tag = Inr self'
     \<and> text' self' = text' self
     \<and> (\<exists>closed. entities' self' = entities' self @ closed)
     \<and> (open_tags self = [] \<longrightarrow>
          open_tags self' = [] \<and> open_tags_meta self' = open_tags_meta self)
     \<and> (building_entities self tag = None \<longrightarrow>
          entities' self' = entities' self \<and> building_entities self' = building_entities self)"
  by (auto simp: handle_endtag_def popleft_def Let_def split: list.splits option.splits)


theorem handle_endtag_tolerant_witness:
  "open_tags new_parser = [] \<and> building_entities new_parser (ascii ''b'') = None
   \<and> (\<exists>self'. handle_endtag new_parser (ascii ''b'') = Inr self'
         \<and> text' self' = [] \<and> entities' self' = [] \<and> open_tags self' = []
         \<and> open_tags_meta self' = [] \<and> building_entities self' = Map.empty)"
proof -
  have h: "open_tags new_parser = []" "building_entities new_parser (ascii ''b'') = None"
    by (simp_all add: new_parser_def)
  from handle_endtag_tolerant[of new_parser "ascii ''b''"] h
  obtain self' where "handle_endtag new_parser (ascii ''b'') = Inr self'"
    "text' self' = text' new_parser" "entities' self' = entities' new_parser"
    "open_tags self' = []" "open_tags_meta self' = open_tags_meta new_parser"
    "building_entities self' = building_entities new_parser"
    by blast
  with h show ?thesis by (auto simp: new_parser_def)
qed

subsection \<open>The unparser and its arguments\<close>

lemma extends_refl: "extends h h"
  by (simp add: extends_def)

lemma extends_trans: "extends h h1 \<Longrightarrow> extends h1 h2 \<Longrightarrow> extends h h2"
  by (auto simp: extends_def)

lemma new_list_extends:
  "new_list h refs = (a, h1) \<Longrightarrow>
     extends h h1 \<and> a = next_addr h \<and> list_at h1 a = refs \<and> next_addr h1 = Suc (next_addr h)"
  by (auto simp: new_list_def extends_def)

lemma entities_loop_Cons_noskip:
  "\<not> offset e * 2 < pos \<Longrightarrow>
   entities_loop rt self text (e # rest) pos lim =
     bind_res (if offset e * 2 > pos then quoted_slice self text pos (offset e * 2) else Inr [])
       (\<lambda>gap.
          bind_res (entities_loop rt self text
                      (filter (\<lambda>x. offset x * 2 < offset e * 2 + length' e * 2) rest)
                      (offset e * 2)
                      (if offset e * 2 + length' e * 2 = 0 then int (length text)
                       else offset e * 2 + length' e * 2))
            (\<lambda>inner.
               bind_res (entities_loop rt self text rest (offset e * 2 + length' e * 2) lim)
                 (\<lambda>more. Inr (gap @ apply_entity rt self e inner @ more))))"
  unfolding quoted_slice_def by (simp add: Let_def split del: if_split)

lemma loop_h_correct:
  assumes "entities < next_addr h"
  shows "\<exists>h'. entities_loop_h rt self text entities index pos lim h
           = Some (entities_loop rt self text
                     (map (entity_at h) (drop index (list_at h entities))) pos lim, h')
         \<and> extends h h'"
  using assms
proof (induction "length (list_at h entities) - index"
    arbitrary: h entities index pos lim rule: less_induct)
  case less
  let ?xs = "list_at h entities"
  show ?case
  proof (cases "length ?xs \<le> index")
    case True
    then show ?thesis
      by (subst entities_loop_h.simps) (simp add: quoted_slice_def extends_refl)
  next
    case False
    then have idx: "index < length ?xs" by simp
    define a where "a = ?xs ! index"
    define e where "e = entity_at h a"
    define rest where "rest = map (entity_at h) (drop (Suc index) ?xs)"
    have dr: "map (entity_at h) (drop index ?xs) = e # rest"
      using idx by (simp add: a_def e_def rest_def Cons_nth_drop_Suc[symmetric])
    show ?thesis
    proof (cases "offset e * 2 < pos")
      case True
      have "length (list_at h entities) - Suc index < length (list_at h entities) - index"
        using idx by simp
      then have "\<exists>h'. entities_loop_h rt self text entities (Suc index) pos lim h
           = Some (entities_loop rt self text
                     (map (entity_at h) (drop (Suc index) (list_at h entities))) pos lim, h')
           \<and> extends h h'"
        using less.prems by (rule less.hyps)
      then obtain h' where h': "entities_loop_h rt self text entities (Suc index) pos lim h
           = Some (entities_loop rt self text rest pos lim, h')" "extends h h'"
        by (auto simp: rest_def)
      have "entities_loop_h rt self text entities index pos lim h
            = entities_loop_h rt self text entities (Suc index) pos lim h"
        using True idx unfolding e_def a_def
        by (subst entities_loop_h.simps) (simp add: Let_def split del: if_split)
      with True h' show ?thesis by (simp add: dr)
    next
      case noskip: False
      define gap where "gap = (if offset e * 2 > pos
                then quoted_slice self text pos (offset e * 2) else Inr [])"
      show ?thesis
      proof (cases gap)
        case (Inl err)
        have "entities_loop rt self text (e # rest) pos lim = Inl err"
          using noskip Inl unfolding gap_def
          by (simp add: entities_loop_Cons_noskip del: entities_loop.simps split del: if_split)
        moreover have "entities_loop_h rt self text entities index pos lim h = Some (Inl err, h)"
          using noskip idx Inl unfolding gap_def e_def a_def
          by (subst entities_loop_h.simps) (simp add: Let_def split del: if_split)
        ultimately show ?thesis by (simp add: dr extends_refl)
      next
        case (Inr g)
        define start where "start = offset e * 2"
        define pos' where "pos' = offset e * 2 + length' e * 2"
        define lim' where "lim' = (if pos' = 0 then int (length text) else pos')"
        obtain r h1 where r: "slice_from h entities (Suc index) = (r, h1)" by force
        obtain sub h2 where sub: "list_filter h1 (\<lambda>e. offset e * 2 < pos') r = (sub, h2)" by force
        from r have nl1: "new_list h (drop (Suc index) ?xs) = (r, h1)"
          by (simp add: slice_from_def)
        have e1: "extends h h1" "r = next_addr h" "list_at h1 r = drop (Suc index) ?xs"
          "next_addr h1 = Suc (next_addr h)"
          using new_list_extends[OF nl1] by blast+
        from sub have nl2: "new_list h1 (filter (\<lambda>a. offset (entity_at h1 a) * 2 < pos')
            (list_at h1 r)) = (sub, h2)"
          by (simp add: list_filter_def)
        have e2: "extends h1 h2" "sub = next_addr h1"
          "list_at h2 sub = filter (\<lambda>a. offset (entity_at h1 a) * 2 < pos') (list_at h1 r)"
          "next_addr h2 = Suc (next_addr h1)"
          using new_list_extends[OF nl2] by blast+
        have ent2: "entity_at h2 = entity_at h" using e1(1) e2(1) by (simp add: extends_def)
        have ext2: "extends h h2" using e1(1) e2(1) by (rule extends_trans)
        have sublist: "list_at h2 sub = filter (\<lambda>a. offset (entity_at h a) * 2 < pos') (drop (Suc index) ?xs)"
          using e1 e2 by (simp add: extends_def)
        have m1: "length (list_at h2 sub) - 0 < length ?xs - index"
        proof -
          have "length (list_at h2 sub) \<le> length (drop (Suc index) ?xs)"
            unfolding sublist by (rule length_filter_le)
          with idx show ?thesis by simp
        qed
        have "sub < next_addr h2" using e2 by simp
        with m1 have "\<exists>h'. entities_loop_h rt self text sub 0 start lim' h2
            = Some (entities_loop rt self text
                      (map (entity_at h2) (drop 0 (list_at h2 sub))) start lim', h')
            \<and> extends h2 h'"
          by (rule less.hyps)
        then obtain h3 where h3: "entities_loop_h rt self text sub 0 start lim' h2
            = Some (entities_loop rt self text (map (entity_at h2) (list_at h2 sub)) start lim', h3)"
            "extends h2 h3"
          by auto
        have subs: "map (entity_at h2) (list_at h2 sub) = filter (\<lambda>e. offset e * 2 < pos') rest"
          by (simp add: sublist ent2 rest_def filter_map comp_def)
        have ext3: "extends h h3" using ext2 h3(2) by (rule extends_trans)
        have ent3: "entity_at h3 = entity_at h" using ext3 by (simp add: extends_def)
        have xs3: "list_at h3 entities = ?xs" using ext3 less.prems by (simp add: extends_def)
        have lt3: "entities < next_addr h3" using ext3 less.prems by (simp add: extends_def)
        have m2: "length (list_at h3 entities) - Suc index < length ?xs - index"
          using idx xs3 by simp
        from m2 lt3 have "\<exists>h'. entities_loop_h rt self text entities (Suc index) pos' lim h3
            = Some (entities_loop rt self text
                      (map (entity_at h3) (drop (Suc index) (list_at h3 entities))) pos' lim, h')
            \<and> extends h3 h'"
          by (rule less.hyps)
        then obtain h4 where h4: "entities_loop_h rt self text entities (Suc index) pos' lim h3
            = Some (entities_loop rt self text rest pos' lim, h4)" "extends h3 h4"
          by (auto simp: xs3 ent3 rest_def)
        have ext4: "extends h h4" using ext3 h4(2) by (rule extends_trans)
        define inner where "inner = entities_loop rt self text (filter (\<lambda>e. offset e * 2 < pos') rest) start lim'"
        have pure: "entities_loop rt self text (e # rest) pos lim =
            bind_res inner (\<lambda>inner_text.
              bind_res (entities_loop rt self text rest pos' lim) (\<lambda>more.
                Inr (g @ apply_entity rt self e inner_text @ more)))"
          using noskip Inr unfolding gap_def inner_def start_def pos'_def lim'_def
          by (simp add: entities_loop_Cons_noskip del: entities_loop.simps split del: if_split)
        have imp: "entities_loop_h rt self text entities index pos lim h =
            Option.bind (entities_loop_h rt self text sub 0 start lim' h2)
               (\<lambda>(inner, h3).
                  case inner of
                    Inl e \<Rightarrow> Some (Inl e, h3)
                  | Inr inner_text \<Rightarrow>
                     Option.bind (entities_loop_h rt self text entities (Suc index) pos' lim h3)
                       (\<lambda>(more, h4).
                          Some (bind_res more (\<lambda>m.
                                  Inr (g @ apply_entity rt self (entity_at h3 a) inner_text @ m)),
                                h4)))"
          using noskip idx Inr r sub unfolding gap_def start_def pos'_def lim'_def e_def a_def
          by (subst entities_loop_h.simps) (simp add: Let_def split del: if_split)
        show ?thesis
        proof (cases inner)
          case (Inl err)
          then show ?thesis
            using imp h3 pure ext3 by (simp add: dr subs inner_def)
        next
          case (Inr inner_text)
          then show ?thesis
            using imp h3 h4 pure ext4 by (simp add: dr subs inner_def[symmetric] ent3 e_def)
        qed
      qed
    qed
  qed
qed


lemma map_insort_key:
  "map f (insort_key (\<lambda>a. g (f a)) x ys) = insort_key g (f x) (map f ys)"
  by (induction ys) simp_all

lemma map_sort_key: "map f (sort_key (\<lambda>a. g (f a)) xs) = sort_key g (map f xs)"
  by (induction xs) (simp_all add: map_insort_key)

lemma map_sort_by_offset:
  "map (entity_at h) (sort_key (\<lambda>a. offset (entity_at h a)) xs)
     = sort_key offset (map (entity_at h) xs)"
  by (rule map_sort_key)

lemma unparse_entities_h_correct:
  assumes "entities < next_addr h"
  shows "\<exists>h'. unparse_entities_h rt self data entities offs len h
           = Some (unparse_entities rt self data (map (entity_at h) (list_at h entities)) offs len, h')
         \<and> extends h h'"
  using loop_h_correct[OF assms, of rt self data 0]
  by (simp add: unparse_entities_h_def)

text \<open>
  C10. On the store, \<open>unparse\<close> returns what the function on values returns for the
  entities that the list refers to, and leaves every entity object with all its fields
  and every list object that existed before the call, the argument among them, with
  the same references in the same order. Sorting, slicing and filtering write to new
  list objects only. The text is an immutable string.
\<close>

theorem unparse_leaves_inputs:
  "\<exists>h'. unparse_h rt text entities h
          = Some (unparse rt text (map_option (\<lambda>l. map (entity_at h) (list_at h l)) entities), h')
      \<and> entity_at h' = entity_at h
      \<and> (\<forall>a < next_addr h. list_at h' a = list_at h a)"
proof (cases "add_surrogates text")
  case (Inl err)
  then show ?thesis
    by (simp add: unparse_h_def unparse_h'_def unparse_def unparse'_def)
next
  case (Inr data)
  define arg where "arg = (case entities of
                  None \<Rightarrow> new_list h []
                | Some l \<Rightarrow> if list_at h l \<noteq> [] then sorted_by_offset h l else new_list h [])"
  define es where "es = (case map_option (\<lambda>l. map (entity_at h) (list_at h l)) entities of
            None \<Rightarrow> []
          | Some es \<Rightarrow> if es = [] then [] else sort_key offset es)"
  obtain a h1 where a: "arg = (a, h1)" by force
  have "\<exists>refs. new_list h refs = (a, h1) \<and> map (entity_at h) refs = es"
    using a unfolding arg_def es_def
    by (auto simp: sorted_by_offset_def map_sort_by_offset split: option.splits if_splits)
  then obtain refs where refs: "new_list h refs = (a, h1)" "map (entity_at h) refs = es"
    by blast
  from new_list_extends[OF refs(1)]
  have e1: "extends h h1" "a = next_addr h" "list_at h1 a = refs" "next_addr h1 = Suc (next_addr h)"
    by blast+
  then have "a < next_addr h1" by simp
  from unparse_entities_h_correct[OF this, of rt html_decoration data None None]
  obtain h' where h': "unparse_entities_h rt html_decoration data a None None h1
      = Some (unparse_entities rt html_decoration data (map (entity_at h1) (list_at h1 a)) None None, h')"
      "extends h1 h'"
    by blast
  have ent: "entity_at h1 = entity_at h" using e1(1) by (simp add: extends_def)
  have ext: "extends h h'" using e1(1) h'(2) by (rule extends_trans)
  have "unparse_h rt text entities h = unparse_entities_h rt html_decoration data a None None h1"
    using Inr a by (simp add: unparse_h_def unparse_h'_def arg_def)
  moreover have "unparse rt text (map_option (\<lambda>l. map (entity_at h) (list_at h l)) entities)
      = unparse_entities rt html_decoration data es None None"
    using Inr by (simp add: unparse_def unparse'_def es_def del: unparse_entities.simps)
  ultimately show ?thesis
    using h'(1) ext e1(3) refs(2) ent
    by (auto simp: extends_def simp del: unparse_entities.simps)
qed

theorem unparse_leaves_inputs_witness:
  "\<exists>h'. unparse_h sample_runtime (ascii ''Hello, world'') (Some 2) sample_heap
          = Some (Inr (ascii ''<b>Hello</b>, <b>world</b>''), h')
      \<and> entity_at h' = entity_at sample_heap
      \<and> list_at h' 2 = [1, 0] \<and> list_at h' 1 = [] \<and> list_at h' 0 = []"
proof -
  have p: "unparse sample_runtime (ascii ''Hello, world'')
        (map_option (\<lambda>l. map (entity_at sample_heap) (list_at sample_heap l)) (Some 2))
      = Inr (ascii ''<b>Hello</b>, <b>world</b>'')"
    by (simp add: sample_heap_def eval_defs)
  have n: "next_addr sample_heap = 3" "list_at sample_heap 2 = [1, 0]"
    "list_at sample_heap 1 = []" "list_at sample_heap 0 = []"
    by (simp_all add: sample_heap_def)
  from unparse_leaves_inputs[of sample_runtime "ascii ''Hello, world''" "Some 2" sample_heap]
  obtain h' where "unparse_h sample_runtime (ascii ''Hello, world'') (Some 2) sample_heap
          = Some (unparse sample_runtime (ascii ''Hello, world'')
        (map_option (\<lambda>l. map (entity_at sample_heap) (list_at sample_heap l)) (Some 2)), h')"
    "entity_at h' = entity_at sample_heap"
    "\<forall>a < next_addr sample_heap. list_at h' a = list_at sample_heap a"
    by blast
  with p n show ?thesis by auto
qed


subsection \<open>An entity that reaches the end of the text or beyond\<close>

lemma encode_units_append:
  "encode_units le sp (xs @ ys) =
     bind_res (encode_units le sp xs) (\<lambda>a. bind_res (encode_units le sp ys) (\<lambda>b. Inr (a @ b)))"
proof (induction xs)
  case Nil
  show ?case by (cases "encode_units le sp ys") simp_all
next
  case (Cons x xs)
  show ?case
  proof (cases "encode_char le sp x")
    case (Inl e)
    then show ?thesis by simp
  next
    case (Inr b)
    then show ?thesis
      using Cons
      by (cases "encode_units le sp xs"; cases "encode_units le sp ys") simp_all
  qed
qed

lemma length_unit_bytes: "length (unit_bytes le u) = 2"
  by (simp add: unit_bytes_def)

lemma encode_scalar:
  assumes "is_scalar_str s"
  shows "\<exists>bs. encode_units True False s = Inr bs \<and> remove_surrogates bs = Inr s
          \<and> length bs = 2 * length (surrogate_pairs s)"
proof -
  have "\<exists>bs. encode_units True False s = Inr bs
          \<and> bytes_to_units True bs = Inr (surrogate_pairs s)
          \<and> length bs = 2 * length (surrogate_pairs s)"
    using assms
  proof (induction s)
    case Nil
    show ?case by (simp add: surrogate_pairs_def)
  next
    case (Cons c s)
    then obtain bs where bs: "encode_units True False s = Inr bs"
        "bytes_to_units True bs = Inr (surrogate_pairs s)"
        "length bs = 2 * length (surrogate_pairs s)"
      by (auto simp: is_scalar_str_def)
    have c: "c < 0x110000" "\<not> is_surrogate c"
      using Cons.prems by (simp_all add: is_scalar_str_def)
    show ?case
    proof (cases "c < 0x10000")
      case True
      with c bs show ?thesis
        by (simp add: encode_char_def bytes_to_units_unit surrogate_pairs_Cons length_unit_bytes)
    next
      case False
      then have r: "0x10000 \<le> c" "c \<le> 0x10FFFF" using c by simp_all
      have h: "high_surrogate c < 65536" using high_surrogate_range[OF r] by simp
      have l: "low_surrogate c < 65536" using low_surrogate_range[of c] by simp
      have "bytes_to_units True (unit_bytes True (high_surrogate c)
              @ unit_bytes True (low_surrogate c) @ bs)
            = Inr (high_surrogate c # low_surrogate c # surrogate_pairs s)"
        by (simp add: bytes_to_units_unit[OF h] bytes_to_units_unit[OF l] bs)
      with False r bs show ?thesis
        by (simp add: encode_char_def surrogate_pairs_Cons length_unit_bytes)
    qed
  qed
  then show ?thesis
    using units_to_str_pairs[OF assms]
    by (auto simp: remove_surrogates_def decode_utf_16_le_def)
qed

lemma slice_bound_nat: "m \<le> n \<Longrightarrow> slice_bound n (int m) = m"
  by (auto simp: slice_bound_def)

lemma slice_bound_beyond: "int n \<le> p \<Longrightarrow> slice_bound n p = n"
  by (auto simp: slice_bound_def)

lemma py_slice_prefix: "py_slice (xs @ ys) 0 (int (length xs)) = xs"
  using slice_bound_nat[of 0 "length (xs @ ys)"]
    slice_bound_nat[of "length xs" "length (xs @ ys)"]
  by (simp add: py_slice_def Let_def)

lemma py_slice_suffix:
  assumes "int (length (xs @ ys)) \<le> p"
  shows "py_slice (xs @ ys) (int (length xs)) p = ys"
  using slice_bound_nat[of "length xs" "length (xs @ ys)"]
    slice_bound_beyond[OF assms]
  by (simp add: py_slice_def Let_def)

lemma escape_Nil: "escape [] = []"
  by (simp add: escape_def replace_char_def)

lemma clip_single_entity:
  assumes "is_scalar_str before" and "is_scalar_str inside"
    and "offset e = int (length (surrogate_pairs before))"
    and "int (length (surrogate_pairs inside)) \<le> length' e"
  shows "unparse rt (before @ inside) (Some [e])
           = Inr (escape before @ apply_entity rt html_decoration e (escape inside))"
proof -
  obtain b1 where b1: "encode_units True False before = Inr b1" "remove_surrogates b1 = Inr before"
      "length b1 = 2 * length (surrogate_pairs before)"
    using encode_scalar[OF assms(1)] by blast
  obtain b2 where b2: "encode_units True False inside = Inr b2" "remove_surrogates b2 = Inr inside"
      "length b2 = 2 * length (surrogate_pairs inside)"
    using encode_scalar[OF assms(2)] by blast
  define data where "data = b1 @ b2"
  have enc: "add_surrogates (before @ inside) = Inr data"
    by (simp add: add_surrogates_def encode_utf_16_le_def encode_units_append b1 b2 data_def)
  have start: "offset e * 2 = int (length b1)" using assms(3) b1(3) by simp
  have len: "int (length data) \<le> offset e * 2 + length' e * 2"
    using assms(3,4) b1(3) b2(3) by (simp add: data_def)
  have nonneg: "\<not> offset e * 2 < 0" using start by simp
  have before_Nil: "before = []" if "b1 = []" using that b1(2)
    by (simp add: remove_surrogates_def decode_utf_16_le_def)
  have inside_Nil: "inside = []" if "b2 = []" using that b2(2)
    by (simp add: remove_surrogates_def decode_utf_16_le_def)
  have G: "(if offset e * 2 > 0 then quoted_slice html_decoration data 0 (offset e * 2)
            else Inr []) = Inr (escape before)"
  proof (cases "offset e * 2 > 0")
    case True
    have "py_slice data 0 (offset e * 2) = b1"
      unfolding start data_def by (rule py_slice_prefix)
    with True show ?thesis by (simp add: quoted_slice_def b1(2) quote_html)
  next
    case False
    then have "b1 = []" using start by simp
    with False show ?thesis by (simp add: before_Nil escape_Nil)
  qed
  have I: "entities_loop rt html_decoration data
             (filter (\<lambda>x. offset x * 2 < offset e * 2 + length' e * 2) [])
             (offset e * 2)
             (if offset e * 2 + length' e * 2 = 0 then int (length data)
              else offset e * 2 + length' e * 2) = Inr (escape inside)"
  proof (cases "offset e * 2 < offset e * 2 + length' e * 2")
    case True
    then have nz: "offset e * 2 + length' e * 2 \<noteq> 0" using nonneg by simp
    have "py_slice data (offset e * 2) (offset e * 2 + length' e * 2) = b2"
      unfolding start data_def using len by (intro py_slice_suffix) (simp add: data_def start)
    with True nz show ?thesis by (simp add: b2(2) quote_html)
  next
    case False
    then have "length' e \<le> 0" by simp
    with assms(4) have "length (surrogate_pairs inside) = 0" by linarith
    then have "b2 = []" using b2(3) by simp
    then have i: "inside = []" by (rule inside_Nil)
    have "\<not> offset e * 2 < (if offset e * 2 + length' e * 2 = 0 then int (length data)
              else offset e * 2 + length' e * 2)"
      using False len \<open>b2 = []\<close> start by (auto simp: data_def)
    then show ?thesis by (simp add: i escape_Nil)
  qed
  have T: "entities_loop rt html_decoration data [] (offset e * 2 + length' e * 2)
             (int (length data)) = Inr []"
    using len by simp
  have "unparse rt (before @ inside) (Some [e])
        = entities_loop rt html_decoration data [e] 0 (int (length data))"
    using enc by (simp add: unparse_def unparse'_def del: entities_loop.simps)
  also have "\<dots> = Inr (escape before @ apply_entity rt html_decoration e (escape inside))"
    by (simp only: entities_loop_Cons_noskip[OF nonneg] G I T bind_res.simps append_Nil2)
  finally show ?thesis .
qed


text \<open>
  C3, as amended. For the text of a trophy, the 43 letters "Telegram Official Android
  Challenge is over", a trophy and a dot, with the one text link entity at offset 2 of
  length 43, \<open>unparse\<close> returns the first trophy, the 43 letters inside the anchor to
  the entity's address, then the second trophy and the dot. And an entity is clipped at
  the end of the text: for every text of Unicode scalar values, cut in two at the
  entity's offset (counted in UTF-16 units), and a single entity whose length is at
  least the number of units that follow, \<open>unparse\<close> returns the escaped part before
  the entity followed by the entity's decoration around the escaped rest of the text,
  whatever the excess of the length.
\<close>

theorem unparse_clips_at_text_end:
  assumes "is_scalar_str before" and "is_scalar_str inside"
    and "offset e = int (length (surrogate_pairs before))"
    and "int (length (surrogate_pairs inside)) \<le> length' e"
  shows \<open>unparse sample_runtime trophy_text
            (Some [MessageEntityTextUrl 2 43 (ascii ''https://example.com'')])
          = Inr ([0x1F3C6]
                 @ ascii ''<a href="https://example.com">Telegram Official Android Challenge is over</a>''
                 @ [0x1F3C6] @ ascii ''.'')
        \<and> unparse rt (before @ inside) (Some [e])
          = Inr (escape before @ apply_entity rt html_decoration e (escape inside))\<close>
proof
  show \<open>unparse sample_runtime trophy_text
            (Some [MessageEntityTextUrl 2 43 (ascii ''https://example.com'')])
          = Inr ([0x1F3C6]
                 @ ascii ''<a href="https://example.com">Telegram Official Android Challenge is over</a>''
                 @ [0x1F3C6] @ ascii ''.'')\<close>
    by (simp add: eval_defs)
  show "unparse rt (before @ inside) (Some [e])
          = Inr (escape before @ apply_entity rt html_decoration e (escape inside))"
    using assms by (rule clip_single_entity)
qed

theorem unparse_clips_at_text_end_witness:
  \<open>is_scalar_str [0x1F3C6]
   \<and> is_scalar_str (ascii ''Telegram Official Android Challenge is over'' @ [0x1F3C6] @ ascii ''.'')
   \<and> offset (MessageEntityTextUrl 2 100 (ascii ''https://example.com''))
       = int (length (surrogate_pairs [0x1F3C6]))
   \<and> int (length (surrogate_pairs
          (ascii ''Telegram Official Android Challenge is over'' @ [0x1F3C6] @ ascii ''.'')))
       \<le> length' (MessageEntityTextUrl 2 100 (ascii ''https://example.com''))
   \<and> unparse sample_runtime
         ([0x1F3C6] @ (ascii ''Telegram Official Android Challenge is over'' @ [0x1F3C6] @ ascii ''.''))
         (Some [MessageEntityTextUrl 2 100 (ascii ''https://example.com'')])
       = Inr ([0x1F3C6]
              @ ascii ''<a href="https://example.com">Telegram Official Android Challenge is over''
              @ [0x1F3C6] @ ascii ''.</a>'')
   \<and> unparse sample_runtime (ascii ''a'' @ ascii ''bc'') (Some [MessageEntityBold 1 100])
       = Inr (ascii ''a<b>bc</b>'')\<close>
proof -
  have h1: "is_scalar_str [0x1F3C6]"
    by (simp add: is_scalar_str_def is_surrogate_def)
  have h2: "is_scalar_str
      (ascii ''Telegram Official Android Challenge is over'' @ [0x1F3C6] @ ascii ''.'')"
    by (simp add: is_scalar_str_def is_surrogate_def ascii_def)
  have h3: \<open>offset (MessageEntityTextUrl 2 100 (ascii ''https://example.com''))
       = int (length (surrogate_pairs [0x1F3C6]))\<close>
    by (simp add: surrogate_pairs_def)
  have h4: \<open>int (length (surrogate_pairs
          (ascii ''Telegram Official Android Challenge is over'' @ [0x1F3C6] @ ascii ''.'')))
       \<le> length' (MessageEntityTextUrl 2 100 (ascii ''https://example.com''))\<close>
    by (simp add: surrogate_pairs_def ascii_def)
  have r1: \<open>Inr (escape [0x1F3C6] @ apply_entity sample_runtime html_decoration
              (MessageEntityTextUrl 2 100 (ascii ''https://example.com''))
              (escape (ascii ''Telegram Official Android Challenge is over'' @ [0x1F3C6] @ ascii ''.'')))
       = (Inr ([0x1F3C6]
              @ ascii ''<a href="https://example.com">Telegram Official Android Challenge is over''
              @ [0x1F3C6] @ ascii ''.</a>'') :: error + pystr)\<close>
    by (simp add: eval_defs)
  have g1: "is_scalar_str (ascii ''a'')" "is_scalar_str (ascii ''bc'')"
    by (simp_all add: is_scalar_str_def is_surrogate_def ascii_def)
  have g3: "offset (MessageEntityBold 1 100) = int (length (surrogate_pairs (ascii ''a'')))"
    by (simp add: surrogate_pairs_def ascii_def)
  have g4: "int (length (surrogate_pairs (ascii ''bc''))) \<le> length' (MessageEntityBold 1 100)"
    by (simp add: surrogate_pairs_def ascii_def)
  have r2: "Inr (escape (ascii ''a'') @ apply_entity sample_runtime html_decoration
              (MessageEntityBold 1 100) (escape (ascii ''bc'')))
       = (Inr (ascii ''a<b>bc</b>'') :: error + pystr)"
    by (simp add: eval_defs)
  from unparse_clips_at_text_end[OF h1 h2 h3 h4, of sample_runtime, THEN conjunct2]
    unparse_clips_at_text_end[OF g1 g3 g4, of sample_runtime, THEN conjunct2]
    h1 h2 h3 h4
  show ?thesis by (simp only: r1 r2 simp_thms)
qed

text \<open>
  C3, as stated, says that the entity of the test reaches past the end of the text. It
  does not: it ends at unit 45 of 48 (at byte 90 of 96), and at code point 45 of 46.
\<close>

theorem trophy_entity_within_text:
  "\<not> extends_past_end trophy_text (MessageEntityTextUrl 2 43 (ascii ''https://example.com''))
   \<and> \<not> int (length trophy_text) < 2 + 43"
  by (simp add: extends_past_end_def eval_defs)

end
